theory Spec2Isabelle
  imports Complex_Main "HOL-Library.Log_Nat" "HOL-Library.Word" "HOL-Library.Sublist"
begin

unbundle bit_operations_syntax

chapter \<open>FinDIT camera-RAW bridges: braw-tool and r3d-tool\<close>

text \<open>
  A shallow embedding of \<^verbatim>\<open>src/tools/braw-tool/main.cpp\<close> and
  \<^verbatim>\<open>src/tools/r3d-tool/main.cpp\<close>. The vendor SDKs, CoreGraphics and libc are not
  part of the repository: their answers are inputs of the model (records of replies and
  function parameters). The arithmetic the tools do themselves is modelled in full:
  machine integers as words, \<^verbatim>\<open>double\<close> and \<^verbatim>\<open>float\<close> as IEEE 754 binary64 and
  binary32 values with round-to-nearest-even written out.
\<close>

section \<open>IEEE 754 values and operations\<close>

text \<open>
  A \<^verbatim>\<open>float\<close> or \<^verbatim>\<open>double\<close> value: a finite number (an exact rational; \<open>Fin 0\<close> is
  \<open>+0\<close>), negative zero, an infinity or a NaN.
\<close>

datatype fval = Fin rat | NegZero | PInf | NInf | NaN

text \<open>\<open>ilog2 x\<close> is \<open>\<lfloor>log\<^sub>2 x\<rfloor>\<close> for a positive rational, computed on integers.\<close>

definition ilog2 :: "rat \<Rightarrow> int" where
  "ilog2 x = (if 1 \<le> x then int (floorlog 2 (nat \<lfloor>x\<rfloor>)) - 1
              else - int (floorlog 2 (nat \<lceil>1 / x\<rceil> - 1)))"

text \<open>Rounding to the nearest integer, ties to the even one.\<close>

definition round_even :: "rat \<Rightarrow> int" where
  "round_even q = (let f = \<lfloor>q\<rfloor>; d = q - of_int f in
     if d < 1 / 2 then f else if 1 / 2 < d then f + 1 else if even f then f else f + 1)"

text \<open>
  \<open>fl p qmin x\<close> rounds a positive rational to the nearest number with a \<open>p\<close>-bit
  significand. The spacing of the representable numbers around \<open>x\<close> is \<open>2 powi e\<close> with
  \<open>e = ilog2 x - (p - 1)\<close>, and never finer than \<open>2 powi qmin\<close> (the subnormal range).
\<close>

definition fl :: "nat \<Rightarrow> int \<Rightarrow> rat \<Rightarrow> rat" where
  "fl p qmin x = (let e = max qmin (ilog2 x - (int p - 1)) in
     of_int (round_even (x / 2 powi e)) * 2 powi e)"

definition fzero :: "bool \<Rightarrow> fval" where
  "fzero neg = (if neg then NegZero else Fin 0)"

definition finf :: "bool \<Rightarrow> fval" where
  "finf neg = (if neg then NInf else PInf)"

text \<open>
  The result of an operation whose exact value has sign \<open>neg\<close> and magnitude \<open>x\<close>:
  rounded, an infinity on overflow (\<open>2 powi emax\<close> and beyond), a signed zero on underflow.
\<close>

definition round_mag :: "nat \<Rightarrow> int \<Rightarrow> int \<Rightarrow> bool \<Rightarrow> rat \<Rightarrow> fval" where
  "round_mag p qmin emax neg x =
     (if x = 0 then fzero neg
      else let r = fl p qmin x in
        if 2 powi emax \<le> r then finf neg
        else if r = 0 then fzero neg
        else Fin (if neg then - r else r))"

text \<open>binary64 (\<^verbatim>\<open>double\<close>) and binary32 (\<^verbatim>\<open>float\<close>).\<close>

definition dbl_round :: "bool \<Rightarrow> rat \<Rightarrow> fval" where
  "dbl_round = round_mag 53 (- 1074) 1024"

definition flt_round :: "bool \<Rightarrow> rat \<Rightarrow> fval" where
  "flt_round = round_mag 24 (- 149) 128"

fun is_inf :: "fval \<Rightarrow> bool" where
  "is_inf PInf = True"
| "is_inf NInf = True"
| "is_inf _ = False"

fun is_zero :: "fval \<Rightarrow> bool" where
  "is_zero (Fin r) = (r = 0)"
| "is_zero NegZero = True"
| "is_zero _ = False"

fun sign_neg :: "fval \<Rightarrow> bool" where
  "sign_neg (Fin r) = (r < 0)"
| "sign_neg NegZero = True"
| "sign_neg NInf = True"
| "sign_neg _ = False"

fun mag :: "fval \<Rightarrow> rat" where
  "mag (Fin r) = \<bar>r\<bar>"
| "mag _ = 0"

text \<open>Multiplication and division, for the rounding \<open>rnd\<close> of the result's format.\<close>

definition fmul :: "(bool \<Rightarrow> rat \<Rightarrow> fval) \<Rightarrow> fval \<Rightarrow> fval \<Rightarrow> fval" where
  "fmul rnd x y =
     (if x = NaN \<or> y = NaN then NaN
      else if (is_inf x \<and> is_zero y) \<or> (is_zero x \<and> is_inf y) then NaN
      else let neg = (sign_neg x \<noteq> sign_neg y) in
        if is_inf x \<or> is_inf y then finf neg
        else rnd neg (mag x * mag y))"

definition fdiv :: "(bool \<Rightarrow> rat \<Rightarrow> fval) \<Rightarrow> fval \<Rightarrow> fval \<Rightarrow> fval" where
  "fdiv rnd x y =
     (if x = NaN \<or> y = NaN then NaN
      else if (is_inf x \<and> is_inf y) \<or> (is_zero x \<and> is_zero y) then NaN
      else let neg = (sign_neg x \<noteq> sign_neg y) in
        if is_inf x then finf neg
        else if is_inf y then fzero neg
        else if is_zero y then finf neg
        else rnd neg (mag x / mag y))"

text \<open>The comparison \<^verbatim>\<open>x < y\<close>: false when an operand is a NaN; the zeros are equal.\<close>

fun frank :: "fval \<Rightarrow> int" where
  "frank NInf = - 1"
| "frank PInf = 1"
| "frank _ = 0"

fun fnum :: "fval \<Rightarrow> rat" where
  "fnum (Fin r) = r"
| "fnum _ = 0"

definition fless :: "fval \<Rightarrow> fval \<Rightarrow> bool" where
  "fless x y = (x \<noteq> NaN \<and> y \<noteq> NaN \<and>
     (frank x < frank y \<or> (frank x = frank y \<and> fnum x < fnum y)))"

text \<open>Conversion of an integer to \<^verbatim>\<open>double\<close> (exact below \<open>2 ^ 53\<close>, rounded above).\<close>

definition d_of_int :: "int \<Rightarrow> fval" where
  "d_of_int n = dbl_round (n < 0) (of_int \<bar>n\<bar>)"

text \<open>
  Conversion of a floating value to an integer type truncates towards zero. When the
  truncated value does not fit the type (or the value is an infinity or a NaN) C++ leaves
  the behaviour undefined; the model takes what the conversion then yields as a parameter
  \<open>oor\<close>, so that every statement about the code holds whatever the platform does.
\<close>

definition ftrunc :: "rat \<Rightarrow> int" where
  "ftrunc r = (if 0 \<le> r then \<lfloor>r\<rfloor> else \<lceil>r\<rceil>)"

definition to_unsigned :: "(fval \<Rightarrow> 'a::len word) \<Rightarrow> fval \<Rightarrow> 'a word" where
  "to_unsigned oor x =
     (case x of
        Fin r \<Rightarrow> if 0 \<le> ftrunc r \<and> ftrunc r < 2 ^ LENGTH('a)
                 then word_of_int (ftrunc r) else oor x
      | NegZero \<Rightarrow> 0
      | _ \<Rightarrow> oor x)"

definition to_signed :: "(fval \<Rightarrow> 'a::len word) \<Rightarrow> fval \<Rightarrow> 'a word" where
  "to_signed oor x =
     (case x of
        Fin r \<Rightarrow> if - (2 ^ (LENGTH('a) - 1)) \<le> ftrunc r \<and> ftrunc r < 2 ^ (LENGTH('a) - 1)
                 then word_of_int (ftrunc r) else oor x
      | NegZero \<Rightarrow> 0
      | _ \<Rightarrow> oor x)"

section \<open>Target size of the JPEG\<close>

text \<open>
  braw-tool, the head of \<^verbatim>\<open>WriteJPEG\<close> (\<^verbatim>\<open>uint32_t srcW, srcH; int maxDim\<close>):
  \<^verbatim>\<open>
    uint32_t dstW = srcW, dstH = srcH;
    if (maxDim > 0) {
        uint32_t shortEdge = (srcW < srcH) ? srcW : srcH;
        if (shortEdge > (uint32_t)maxDim) {
            double scale = (double)maxDim / shortEdge;
            dstW = (uint32_t)(srcW * scale);
            dstH = (uint32_t)(srcH * scale);
            dstW = (dstW + 1) & ~1u;
            dstH = (dstH + 1) & ~1u;
        }
    }\<close>
  \<open>maxDim\<close> is the 32-bit pattern of the \<^verbatim>\<open>int\<close>, read with \<open>sint\<close>.
\<close>

definition WriteJPEG_dims ::
  "(fval \<Rightarrow> 32 word) \<Rightarrow> 32 word \<Rightarrow> 32 word \<Rightarrow> 32 word \<Rightarrow> 32 word \<times> 32 word" where
  "WriteJPEG_dims oor srcW srcH maxDim =
     (if 0 < sint maxDim then
        let shortEdge = (if srcW < srcH then srcW else srcH) in
        if maxDim < shortEdge then
          let scale = fdiv dbl_round (d_of_int (sint maxDim)) (d_of_int (uint shortEdge));
              dstW = to_unsigned oor (fmul dbl_round (d_of_int (uint srcW)) scale);
              dstH = to_unsigned oor (fmul dbl_round (d_of_int (uint srcH)) scale)
          in ((dstW + 1) AND NOT 1, (dstH + 1) AND NOT 1)
        else (srcW, srcH)
      else (srcW, srcH))"

text \<open>
  r3d-tool, the head of \<^verbatim>\<open>writeBGRAasJPEG\<close> (\<^verbatim>\<open>size_t width, height; int maxDim\<close>):
  \<^verbatim>\<open>
    size_t outW = width, outH = height;
    if (maxDim > 0) {
        size_t shortEdge = (outW < outH) ? outW : outH;
        if ((int)shortEdge > maxDim) {
            double scale = (double)maxDim / (double)shortEdge;
            outW = (size_t)(outW * scale);
            outH = (size_t)(outH * scale);
            outW = (outW + 1) & ~(size_t)1;
            outH = (outH + 1) & ~(size_t)1;
        }
    }\<close>
  The cast \<^verbatim>\<open>(int)shortEdge\<close> keeps the low 32 bits.
\<close>

definition writeBGRAasJPEG_dims ::
  "(fval \<Rightarrow> 64 word) \<Rightarrow> 64 word \<Rightarrow> 64 word \<Rightarrow> 32 word \<Rightarrow> 64 word \<times> 64 word" where
  "writeBGRAasJPEG_dims oor width height maxDim =
     (if 0 < sint maxDim then
        let shortEdge = (if width < height then width else height) in
        if sint maxDim < sint (ucast shortEdge :: 32 word) then
          let scale = fdiv dbl_round (d_of_int (sint maxDim)) (d_of_int (uint shortEdge));
              outW = to_unsigned oor (fmul dbl_round (d_of_int (uint width)) scale);
              outH = to_unsigned oor (fmul dbl_round (d_of_int (uint height)) scale)
          in ((outW + 1) AND NOT 1, (outH + 1) AND NOT 1)
        else (width, height)
      else (width, height))"

text \<open>
  The target size as the specification words it, on unbounded integers: the short edge
  scaled to \<open>maxDim\<close>, both edges floored and rounded up to the next even number.
\<close>

definition up_even :: "nat \<Rightarrow> nat" where
  "up_even n = (if even n then n else n + 1)"

definition spec_dims :: "nat \<Rightarrow> nat \<Rightarrow> int \<Rightarrow> nat \<times> nat" where
  "spec_dims srcW srcH maxDim =
     (if 0 < maxDim \<and> maxDim < int (min srcW srcH)
      then (up_even (srcW * nat maxDim div min srcW srcH),
            up_even (srcH * nat maxDim div min srcW srcH))
      else (srcW, srcH))"

section \<open>r3d-tool: decoded audio to 16-bit PCM\<close>

text \<open>
  The conversion loops of \<^verbatim>\<open>cmd_extract_audio\<close>. A float sample:
  \<^verbatim>\<open>
    float s = f[i];
    if (s > 1.0f) s = 1.0f;
    if (s < -1.0f) s = -1.0f;
    out16[i] = (int16_t)(s * 32767.0f);\<close>
  The product of two \<^verbatim>\<open>float\<close>s is a \<^verbatim>\<open>float\<close>: it is rounded to binary32.
\<close>

definition clamp_sample :: "fval \<Rightarrow> fval" where
  "clamp_sample s =
     (let s1 = (if fless (Fin 1) s then Fin 1 else s)
      in if fless s1 (Fin (- 1)) then Fin (- 1) else s1)"

definition float_to_pcm16 :: "(fval \<Rightarrow> 16 word) \<Rightarrow> fval \<Rightarrow> 16 word" where
  "float_to_pcm16 oor s = to_signed oor (fmul flt_round (clamp_sample s) (Fin 32767))"

text \<open>
  An integer sample, four bytes \<^verbatim>\<open>p[0..3]\<close> of which the code reads two:
  \<^verbatim>\<open>out16[i] = (int16_t)((p[0] << 8) | p[1]);\<close>
  The bytes are promoted to \<^verbatim>\<open>int\<close> before the shift; the cast keeps the low 16 bits.
\<close>

definition int_to_pcm16 :: "8 word \<Rightarrow> 8 word \<Rightarrow> 16 word" where
  "int_to_pcm16 p0 p1 = word_of_int (push_bit 8 (uint p0) OR uint p1)"

text \<open>
  One decoded chunk of \<open>totalValues\<close> values. The buffer is read as \<^verbatim>\<open>float\<close>s (\<open>f\<close>) when
  the clip's audio is float and as bytes (\<open>raw\<close>) otherwise.
\<close>

definition convert_chunk ::
  "(fval \<Rightarrow> 16 word) \<Rightarrow> bool \<Rightarrow> (nat \<Rightarrow> fval) \<Rightarrow> (nat \<Rightarrow> 8 word) \<Rightarrow> nat \<Rightarrow> 16 word list" where
  "convert_chunk oor isFloat f raw totalValues =
     (if isFloat then map (\<lambda>i. float_to_pcm16 oor (f i)) [0..<totalValues]
      else map (\<lambda>i. int_to_pcm16 (raw (i * 4)) (raw (i * 4 + 1))) [0..<totalValues])"


section \<open>Time to frame index\<close>

text \<open>
  braw-tool, \<^verbatim>\<open>ExtractOneFrame\<close> (\<^verbatim>\<open>float fps; double timeSec\<close>):
  \<^verbatim>\<open>
    uint64_t frameIndex = (uint64_t)(timeSec * fps);
    uint64_t frameCount = 0;
    clip->GetFrameCount(&frameCount);
    if (frameCount > 0 && frameIndex >= frameCount)
        frameIndex = frameCount - 1;\<close>
  \<open>fps\<close> is converted to \<^verbatim>\<open>double\<close> for the product, which changes no value.
\<close>

definition braw_frame_index :: "(fval \<Rightarrow> 64 word) \<Rightarrow> fval \<Rightarrow> fval \<Rightarrow> 64 word \<Rightarrow> 64 word" where
  "braw_frame_index oor fps timeSec frameCount =
     (let frameIndex = to_unsigned oor (fmul dbl_round timeSec fps)
      in if 0 < frameCount \<and> frameCount \<le> frameIndex then frameCount - 1 else frameIndex)"

text \<open>
  r3d-tool, \<^verbatim>\<open>decodeFrame\<close>:
  \<^verbatim>\<open>
    size_t frameNo = (fps > 0 && timeSec > 0) ? (size_t)(timeSec * fps) : 0;
    if (frameNo >= totalFrames && totalFrames > 0)
        frameNo = totalFrames - 1;\<close>
\<close>

definition r3d_frame_no :: "(fval \<Rightarrow> 64 word) \<Rightarrow> fval \<Rightarrow> fval \<Rightarrow> 64 word \<Rightarrow> 64 word" where
  "r3d_frame_no oor fps timeSec totalFrames =
     (let frameNo = (if fless (Fin 0) fps \<and> fless (Fin 0) timeSec
                     then to_unsigned oor (fmul dbl_round timeSec fps) else 0)
      in if totalFrames \<le> frameNo \<and> 0 < totalFrames then totalFrames - 1 else frameNo)"

section \<open>Parsing the list of times\<close>

text \<open>
  A C string is the list of its characters before the terminating NUL, so \<^verbatim>\<open>*p == '\0'\<close>
  is \<open>p = []\<close>. \<^verbatim>\<open>strtod\<close> belongs to libc: it is a parameter, which returns the
  value and the number of characters it consumed (\<^verbatim>\<open>end - p\<close>; 0 when nothing converts).

  braw-tool, \<^verbatim>\<open>ParseTimesJSON\<close>:
  \<^verbatim>\<open>
    while (*p && *p != '[') p++;
    if (*p == '[') p++;
    while (*p) {
        while (*p && (*p == ' ' || *p == ',')) p++;
        if (*p == ']' || *p == '\0') break;
        char* end = nullptr;
        double val = strtod(p, &end);
        if (end > p) { times.push_back(val); p = end; }
        else { p++; }
    }\<close>
\<close>

definition after_bracket :: "string \<Rightarrow> string" where
  "after_bracket json =
     (case dropWhile (\<lambda>c. c \<noteq> CHR ''['') json of [] \<Rightarrow> [] | _ # p \<Rightarrow> p)"

function ParseTimesJSON_loop :: "(string \<Rightarrow> 'v \<times> nat) \<Rightarrow> string \<Rightarrow> 'v list" where
  "ParseTimesJSON_loop strtod p =
     (if p = [] then []
      else let p1 = dropWhile (\<lambda>c. c = CHR '' '' \<or> c = CHR '','') p in
        if p1 = [] \<or> hd p1 = CHR '']'' then []
        else if 0 < snd (strtod p1)
          then fst (strtod p1) # ParseTimesJSON_loop strtod (drop (snd (strtod p1)) p1)
          else ParseTimesJSON_loop strtod (tl p1))"
  by pat_completeness auto
termination
proof (relation "measure (\<lambda>(strtod, p). length p)")
  show "wf (measure (\<lambda>(strtod :: string \<Rightarrow> 'v \<times> nat, p). length p))" by simp
next
  fix strtod :: "string \<Rightarrow> 'v \<times> nat" and p p1 :: string
  assume p: "p \<noteq> []" and p1: "p1 = dropWhile (\<lambda>c. c = CHR '' '' \<or> c = CHR '','') p"
    and ne: "\<not> (p1 = [] \<or> hd p1 = CHR '']'')"
  have le: "length p1 \<le> length p" unfolding p1 by (rule length_dropWhile_le)
  have pos: "0 < length p1" using ne by simp
  {
    assume "0 < snd (strtod p1)"
    hence "length (drop (snd (strtod p1)) p1) < length p"
      using le pos unfolding length_drop by arith
    thus "((strtod, drop (snd (strtod p1)) p1), (strtod, p)) \<in> measure (\<lambda>(strtod, p). length p)"
      by simp
  }
  {
    assume "\<not> 0 < snd (strtod p1)"
    have "length (tl p1) < length p" using le pos unfolding length_tl by arith
    thus "((strtod, tl p1), (strtod, p)) \<in> measure (\<lambda>(strtod, p). length p)"
      by simp
  }
qed

declare ParseTimesJSON_loop.simps [simp del]

definition ParseTimesJSON :: "(string \<Rightarrow> 'v \<times> nat) \<Rightarrow> string \<Rightarrow> 'v list" where
  "ParseTimesJSON strtod json = ParseTimesJSON_loop strtod (after_bracket json)"

text \<open>
  r3d-tool, the parser at the head of \<^verbatim>\<open>cmd_extract_frames\<close>:
  \<^verbatim>\<open>
    while (*p && *p != '[') p++;
    if (*p == '[') p++;
    while (*p) {
        while (*p == ' ' || *p == ',' || *p == '\n') p++;
        if (*p == ']' || *p == '\0') break;
        char* end = nullptr;
        double t = strtod(p, &end);
        if (end == p) break;
        times.push_back(t);
        p = end;
    }\<close>
\<close>

function r3d_parse_loop :: "(string \<Rightarrow> 'v \<times> nat) \<Rightarrow> string \<Rightarrow> 'v list" where
  "r3d_parse_loop strtod p =
     (if p = [] then []
      else let p1 = dropWhile (\<lambda>c. c = CHR '' '' \<or> c = CHR '','' \<or> c = CHR 0x0A) p in
        if p1 = [] \<or> hd p1 = CHR '']'' then []
        else if snd (strtod p1) = 0 then []
        else fst (strtod p1) # r3d_parse_loop strtod (drop (snd (strtod p1)) p1))"
  by pat_completeness auto
termination
proof (relation "measure (\<lambda>(strtod, p). length p)")
  show "wf (measure (\<lambda>(strtod :: string \<Rightarrow> 'v \<times> nat, p). length p))" by simp
next
  fix strtod :: "string \<Rightarrow> 'v \<times> nat" and p p1 :: string
  assume p: "p \<noteq> []"
    and p1: "p1 = dropWhile (\<lambda>c. c = CHR '' '' \<or> c = CHR '','' \<or> c = CHR 0x0A) p"
    and ne: "\<not> (p1 = [] \<or> hd p1 = CHR '']'')" and n: "snd (strtod p1) \<noteq> 0"
  have le: "length p1 \<le> length p" unfolding p1 by (rule length_dropWhile_le)
  have pos: "0 < length p1" using ne by simp
  have "length (drop (snd (strtod p1)) p1) < length p"
    using le pos n unfolding length_drop by arith
  thus "((strtod, drop (snd (strtod p1)) p1), (strtod, p)) \<in> measure (\<lambda>(strtod, p). length p)"
    by simp
qed

declare r3d_parse_loop.simps [simp del]

definition r3d_parse_times :: "(string \<Rightarrow> 'v \<times> nat) \<Rightarrow> string \<Rightarrow> 'v list" where
  "r3d_parse_times strtod json = r3d_parse_loop strtod (after_bracket json)"

text \<open>
  Whether every \<^verbatim>\<open>strtod\<close> call of r3d-tool's loop converts something, that is, the loop
  never leaves through \<^verbatim>\<open>if (end == p) break;\<close>.
\<close>

function r3d_all_convert :: "(string \<Rightarrow> 'v \<times> nat) \<Rightarrow> string \<Rightarrow> bool" where
  "r3d_all_convert strtod p =
     (if p = [] then True
      else let p1 = dropWhile (\<lambda>c. c = CHR '' '' \<or> c = CHR '','' \<or> c = CHR 0x0A) p in
        if p1 = [] \<or> hd p1 = CHR '']'' then True
        else if snd (strtod p1) = 0 then False
        else r3d_all_convert strtod (drop (snd (strtod p1)) p1))"
  by pat_completeness auto
termination
proof (relation "measure (\<lambda>(strtod, p). length p)")
  show "wf (measure (\<lambda>(strtod :: string \<Rightarrow> 'v \<times> nat, p). length p))" by simp
next
  fix strtod :: "string \<Rightarrow> 'v \<times> nat" and p p1 :: string
  assume p: "p \<noteq> []"
    and p1: "p1 = dropWhile (\<lambda>c. c = CHR '' '' \<or> c = CHR '','' \<or> c = CHR 0x0A) p"
    and ne: "\<not> (p1 = [] \<or> hd p1 = CHR '']'')" and n: "snd (strtod p1) \<noteq> 0"
  have le: "length p1 \<le> length p" unfolding p1 by (rule length_dropWhile_le)
  have pos: "0 < length p1" using ne by simp
  have "length (drop (snd (strtod p1)) p1) < length p"
    using le pos n unfolding length_drop by arith
  thus "((strtod, drop (snd (strtod p1)) p1), (strtod, p)) \<in> measure (\<lambda>(strtod, p). length p)"
    by simp
qed

declare r3d_all_convert.simps [simp del]

text \<open>
  What the C standard says of \<^verbatim>\<open>strtod\<close> and the parsers rely on: leading white space
  (here a blank or a newline) is skipped and counted in what is consumed, and nothing
  converts from an empty string or from one that starts with a comma or a closing bracket.
\<close>

definition strtod_ok :: "(string \<Rightarrow> 'v \<times> nat) \<Rightarrow> bool" where
  "strtod_ok strtod \<longleftrightarrow>
     snd (strtod []) = 0
     \<and> (\<forall>s. snd (strtod (CHR '','' # s)) = 0)
     \<and> (\<forall>s. snd (strtod (CHR '']'' # s)) = 0)
     \<and> (\<forall>s. strtod (CHR '' '' # s)
            = (fst (strtod s), if snd (strtod s) = 0 then 0 else Suc (snd (strtod s))))
     \<and> (\<forall>s. strtod (CHR 0x0A # s)
            = (fst (strtod s), if snd (strtod s) = 0 then 0 else Suc (snd (strtod s))))"

text \<open>
  A stand-in for \<^verbatim>\<open>strtod\<close> on plain decimal numerals (white space, an optional sign,
  digits, an optional fraction; no exponent, no hexadecimal, no \<^verbatim>\<open>inf\<close> or \<^verbatim>\<open>nan\<close>), which
  returns the exact value. It only instantiates the parameter at concrete inputs.
\<close>

definition is_space :: "char \<Rightarrow> bool" where
  "is_space c \<longleftrightarrow> c = CHR '' '' \<or> c = CHR 0x09 \<or> c = CHR 0x0A \<or> c = CHR 0x0B
     \<or> c = CHR 0x0C \<or> c = CHR 0x0D"

definition is_digit :: "char \<Rightarrow> bool" where
  "is_digit c \<longleftrightarrow> c \<in> set ''0123456789''"

definition digits_val :: "string \<Rightarrow> nat" where
  "digits_val ds = foldl (\<lambda>a c. 10 * a + (of_char c - 48)) 0 ds"

definition number_prefix :: "string \<Rightarrow> rat \<times> nat" where
  "number_prefix r =
     (let neg = (r \<noteq> [] \<and> hd r = CHR ''-'');
          sg = (if r \<noteq> [] \<and> (hd r = CHR ''-'' \<or> hd r = CHR ''+'') then 1 else 0);
          r1 = drop sg r;
          ip = takeWhile is_digit r1;
          r2 = dropWhile is_digit r1;
          dot = (r2 \<noteq> [] \<and> hd r2 = CHR ''.'');
          fp = (if dot then takeWhile is_digit (tl r2) else [])
      in if ip = [] \<and> fp = [] then (0, 0)
         else ((if neg then - 1 else 1)
                 * (of_nat (digits_val ip) + of_nat (digits_val fp) / 10 ^ length fp),
               sg + length ip + (if dot then 1 + length fp else 0)))"

definition strtod_plain :: "string \<Rightarrow> rat \<times> nat" where
  "strtod_plain s =
     (if snd (number_prefix (dropWhile is_space s)) = 0 then (0, 0)
      else (fst (number_prefix (dropWhile is_space s)),
            length (takeWhile is_space s) + snd (number_prefix (dropWhile is_space s))))"

text \<open>
  A timestamps argument with a fraction, a comma, a newline and a blank.
\<close>

definition times_arg :: string where
  "times_arg = ''[1.5,'' @ CHR 0x0A # '' 3]''"

section \<open>The commands\<close>

text \<open>
  A command returns what it printed on standard output and its return value, which
  \<^verbatim>\<open>main\<close> hands on as the exit code of the process. Standard error is not modelled.
  \<^verbatim>\<open>extract-audio\<close> also returns the bytes of the file it wrote, if it created one.

  What libc, CoreGraphics and the C++ conversions contribute is a record of functions:
  \<^verbatim>\<open>strtod\<close>, \<^verbatim>\<open>atof\<close> and \<^verbatim>\<open>atoi\<close>; the text \<^verbatim>\<open>printf\<close> produces for \<^verbatim>\<open>%.Nf\<close>; whether
  \<^verbatim>\<open>fopen(path, "wb")\<close> returns a stream; whether the \<open>n\<close>-th \<^verbatim>\<open>posix_memalign\<close> of a size
  succeeds; whether the CoreGraphics calls end with a finalized JPEG of a size at a path;
  and what the conversion of an out-of-range floating value to each integer type yields.
  Writes to an open stream are taken to succeed.
\<close>

record platform =
  libc_strtod :: "string \<Rightarrow> fval \<times> nat"
  libc_atof :: "string \<Rightarrow> fval"
  libc_atoi :: "string \<Rightarrow> 32 word"
  printf_f :: "nat \<Rightarrow> fval \<Rightarrow> string"
  fopen_wb :: "string \<Rightarrow> bool"
  posix_memalign_ok :: "nat \<Rightarrow> 64 word \<Rightarrow> bool"
  jpeg_finalized :: "string \<Rightarrow> nat \<Rightarrow> nat \<Rightarrow> bool"
  cvt_u32 :: "fval \<Rightarrow> 32 word"
  cvt_u64 :: "fval \<Rightarrow> 64 word"
  cvt_s16 :: "fval \<Rightarrow> 16 word"

subsection \<open>Formatted output\<close>

text \<open>
  \<^verbatim>\<open>%u\<close>, \<^verbatim>\<open>%llu\<close> and \<^verbatim>\<open>%zu\<close> print the decimal digits of an unsigned number; \<^verbatim>\<open>%04zu\<close>
  pads them with zeros on the left to four characters. \<^verbatim>\<open>snprintf\<close> into a buffer of
  \<open>bufsize\<close> bytes keeps the first \<open>bufsize - 1\<close> characters.
\<close>

definition digit_char :: "nat \<Rightarrow> char" where
  "digit_char d = ''0123456789'' ! d"

fun dec :: "nat \<Rightarrow> string" where
  "dec n = (if n < 10 then [digit_char n] else dec (n div 10) @ [digit_char (n mod 10)])"

declare dec.simps [simp del]

definition pad4 :: "string \<Rightarrow> string" where
  "pad4 d = replicate (4 - length d) CHR ''0'' @ d"

definition snprintf_frame :: "nat \<Rightarrow> string \<Rightarrow> nat \<Rightarrow> string" where
  "snprintf_frame bufsize outputDir i =
     take (bufsize - 1) (outputDir @ ''/frame_'' @ pad4 (dec i) @ ''.jpg'')"

definition quoted :: "string \<Rightarrow> string" where
  "quoted s = CHR 0x22 # s @ [CHR 0x22]"

definition nl :: string where
  "nl = [CHR 0x0A]"

text \<open>
  Both \<^verbatim>\<open>probe\<close> commands compute the duration as
  \<^verbatim>\<open>(fps > 0) ? (double)frameCount / fps : 0\<close>, with \<^verbatim>\<open>float fps\<close> and an unsigned 64-bit
  frame count.
\<close>

definition probe_duration :: "fval \<Rightarrow> 64 word \<Rightarrow> fval" where
  "probe_duration fps frameCount =
     (if fless (Fin 0) fps then fdiv dbl_round (d_of_int (uint frameCount)) fps else Fin 0)"

text \<open>
  The scan for \<^verbatim>\<open>--max-dim\<close> of both \<^verbatim>\<open>main\<close>s:
  \<^verbatim>\<open>for (int i = start; i < argc - 1; i++) if (strcmp(argv[i], "--max-dim") == 0) ...\<close>
  run on the arguments from \<open>argv[i]\<close> on. It returns the value of the option and where
  it was found.
\<close>

fun max_dim_scan :: "(string \<Rightarrow> 32 word) \<Rightarrow> nat \<Rightarrow> string list \<Rightarrow> (32 word \<times> nat) option" where
  "max_dim_scan atoi i (a # b # rest) =
     (if a = ''--max-dim'' then Some (atoi b, i) else max_dim_scan atoi (Suc i) (b # rest))"
| "max_dim_scan atoi i [a] = None"
| "max_dim_scan atoi i [] = None"

text \<open>Integers in the byte order of the machines the tools run on (little-endian).\<close>

definition le16 :: "16 word \<Rightarrow> 8 word list" where
  "le16 w = [ucast w, ucast (drop_bit 8 w)]"

definition le32 :: "32 word \<Rightarrow> 8 word list" where
  "le32 w = [ucast w, ucast (drop_bit 8 w), ucast (drop_bit 16 w), ucast (drop_bit 24 w)]"

definition tag :: "string \<Rightarrow> 8 word list" where
  "tag s = map (\<lambda>c. of_nat (of_char c)) s"

subsection \<open>braw-tool\<close>

text \<open>
  \<^verbatim>\<open>HRESULT\<close> is a 32-bit integer and \<^verbatim>\<open>S_OK\<close> is 0.
\<close>

type_synonym HRESULT = "32 word"

definition S_OK :: HRESULT where
  "S_OK = 0"

text \<open>
  What the SDK answers to the calls around one frame: the results of \<^verbatim>\<open>SetCallback\<close>,
  \<^verbatim>\<open>CreateJobReadFrame\<close> and the read job's \<^verbatim>\<open>Submit\<close>; the status it hands to
  \<^verbatim>\<open>ReadComplete\<close>; the results of \<^verbatim>\<open>CreateJobDecodeAndProcessFrame\<close> and the decode
  job's \<^verbatim>\<open>Submit\<close>; the status it hands to \<^verbatim>\<open>ProcessComplete\<close>; and the results of the
  getters of the processed image (with the value they deliver; for \<^verbatim>\<open>GetResource\<close>
  whether the pointer is not null). The SDK calls \<^verbatim>\<open>ReadComplete\<close> for a read job
  that was submitted and \<^verbatim>\<open>ProcessComplete\<close> for a decode job that was submitted, both
  before \<^verbatim>\<open>FlushJobs\<close> returns.
\<close>

record braw_job =
  SetCallback :: HRESULT
  CreateJobReadFrame :: HRESULT
  Submit_read :: HRESULT
  ReadComplete_hr :: HRESULT
  CreateJobDecodeAndProcessFrame :: HRESULT
  Submit_decode :: HRESULT
  ProcessComplete_hr :: HRESULT
  img_GetWidth :: "HRESULT \<times> 32 word"
  img_GetHeight :: "HRESULT \<times> 32 word"
  img_GetResourceSizeBytes :: HRESULT
  img_GetResource :: "HRESULT \<times> bool"

text \<open>
  The SDK and the clip for one run. \<^verbatim>\<open>CreateFactory\<close> tells whether the factory pointer
  is not null. The getters of the clip and of its audio give the value found in the
  variable after the call (the code initialises it to 0 and ignores the status).
  \<^verbatim>\<open>QueryInterface\<close> gives its status and whether the audio pointer is not null.
  \<^verbatim>\<open>GetAudioSamples\<close> at a sample index gives its status, \<^verbatim>\<open>samplesRead\<close> and the
  \<^verbatim>\<open>bytesRead\<close> bytes it put in the buffer. \<open>frame_job n i\<close> is what the SDK answers
  around the \<open>n\<close>-th frame the run asks for, at frame index \<open>i\<close>.
\<close>

record braw_sdk =
  CreateFactory :: bool
  CreateCodec :: HRESULT
  OpenClip :: "string \<Rightarrow> HRESULT"
  GetWidth :: "32 word"
  GetHeight :: "32 word"
  GetFrameRate :: fval
  GetFrameCount :: "64 word"
  QueryInterface_audio :: "HRESULT \<times> bool"
  GetAudioChannelCount :: "32 word"
  GetAudioSampleRate :: "32 word"
  GetAudioBitDepth :: "32 word"
  GetAudioSampleCount :: "64 word"
  GetAudioSamples :: "64 word \<Rightarrow> HRESULT \<times> 32 word \<times> 8 word list"
  frame_job :: "nat \<Rightarrow> 64 word \<Rightarrow> braw_job"

text \<open>
  \<^verbatim>\<open>WriteJPEG\<close>: the target size, then CoreGraphics.
\<close>

definition WriteJPEG :: "platform \<Rightarrow> string \<Rightarrow> 32 word \<Rightarrow> 32 word \<Rightarrow> 32 word \<Rightarrow> bool" where
  "WriteJPEG pf outputPath srcW srcH maxDim =
     (let dst = WriteJPEG_dims (cvt_u32 pf) srcW srcH maxDim
      in jpeg_finalized pf outputPath (unat (fst dst)) (unat (snd dst)))"

text \<open>
  \<^verbatim>\<open>FrameCallback::ProcessComplete\<close>, the value it leaves in \<^verbatim>\<open>result.success\<close>:
  \<^verbatim>\<open>
    if (hr == S_OK) hr = img->GetWidth(&width);
    if (hr == S_OK) hr = img->GetHeight(&height);
    if (hr == S_OK) hr = img->GetResourceSizeBytes(&sizeBytes);
    if (hr == S_OK) hr = img->GetResource(&rawData);
    if (hr == S_OK && rawData && outputPath)
        result.success = WriteJPEG(outputPath, width, height, rawData, maxDim);\<close>
  \<^verbatim>\<open>outputPath\<close> is never null here.
\<close>

definition ProcessComplete :: "platform \<Rightarrow> braw_job \<Rightarrow> string \<Rightarrow> 32 word \<Rightarrow> bool" where
  "ProcessComplete pf j outputPath maxDim =
     (if ProcessComplete_hr j \<noteq> S_OK then False
      else if fst (img_GetWidth j) \<noteq> S_OK then False
      else if fst (img_GetHeight j) \<noteq> S_OK then False
      else if img_GetResourceSizeBytes j \<noteq> S_OK then False
      else if fst (img_GetResource j) \<noteq> S_OK then False
      else if \<not> snd (img_GetResource j) then False
      else WriteJPEG pf outputPath (snd (img_GetWidth j)) (snd (img_GetHeight j)) maxDim)"

text \<open>
  \<^verbatim>\<open>FrameCallback::ReadComplete\<close> and the \<^verbatim>\<open>ProcessComplete\<close> that follows a submitted
  decode job: \<^verbatim>\<open>result.success\<close> when \<^verbatim>\<open>FlushJobs\<close> has returned.
\<close>

definition ReadComplete :: "platform \<Rightarrow> braw_job \<Rightarrow> string \<Rightarrow> 32 word \<Rightarrow> bool" where
  "ReadComplete pf j outputPath maxDim =
     (if ReadComplete_hr j \<noteq> S_OK then False
      else if CreateJobDecodeAndProcessFrame j \<noteq> S_OK then False
      else if Submit_decode j \<noteq> S_OK then False
      else ProcessComplete pf j outputPath maxDim)"

text \<open>
  \<^verbatim>\<open>ExtractOneFrame\<close>; \<open>n\<close> counts the frames the run has asked for before this one.
\<close>

definition ExtractOneFrame ::
  "platform \<Rightarrow> braw_sdk \<Rightarrow> nat \<Rightarrow> fval \<Rightarrow> fval \<Rightarrow> string \<Rightarrow> 32 word \<Rightarrow> int" where
  "ExtractOneFrame pf sdk n fps timeSec outputPath maxDim =
     (let frameIndex = braw_frame_index (cvt_u64 pf) fps timeSec (GetFrameCount sdk);
          j = frame_job sdk n frameIndex
      in if SetCallback j \<noteq> S_OK then 1
         else if CreateJobReadFrame j \<noteq> S_OK then 1
         else if Submit_read j \<noteq> S_OK then 1
         else if \<not> ReadComplete pf j outputPath maxDim then 1
         else 0)"

text \<open>
  \<^verbatim>\<open>CmdProbe\<close>. The line it prints:
  \<^verbatim>\<open>{"width":%u,"height":%u,"fps":%.4f,"frameCount":%llu,"duration":%.4f,"codec":"braw",
  "hasAudio":%s,"audioChannels":%u,"audioSampleRate":%u,"audioBitDepth":%u}\<close>
\<close>

definition CmdProbe :: "platform \<Rightarrow> braw_sdk \<Rightarrow> string \<Rightarrow> string \<times> int" where
  "CmdProbe pf sdk filePath =
     (if \<not> CreateFactory sdk then ([], 1)
      else if CreateCodec sdk \<noteq> S_OK then ([], 1)
      else if OpenClip sdk filePath \<noteq> S_OK then ([], 1)
      else
        let fps = GetFrameRate sdk;
            frameCount = GetFrameCount sdk;
            duration = probe_duration fps frameCount;
            audio = (fst (QueryInterface_audio sdk) = S_OK \<and> snd (QueryInterface_audio sdk));
            audioChannels = (if audio then GetAudioChannelCount sdk else 0);
            audioSampleRate = (if audio then GetAudioSampleRate sdk else 0);
            audioBitDepth = (if audio then GetAudioBitDepth sdk else 0);
            hasAudio = (audio \<and> 0 < audioChannels)
        in (''{'' @ quoted ''width'' @ '':'' @ dec (unat (GetWidth sdk))
              @ '','' @ quoted ''height'' @ '':'' @ dec (unat (GetHeight sdk))
              @ '','' @ quoted ''fps'' @ '':'' @ printf_f pf 4 fps
              @ '','' @ quoted ''frameCount'' @ '':'' @ dec (unat frameCount)
              @ '','' @ quoted ''duration'' @ '':'' @ printf_f pf 4 duration
              @ '','' @ quoted ''codec'' @ '':'' @ quoted ''braw''
              @ '','' @ quoted ''hasAudio'' @ '':'' @ (if hasAudio then ''true'' else ''false'')
              @ '','' @ quoted ''audioChannels'' @ '':'' @ dec (unat audioChannels)
              @ '','' @ quoted ''audioSampleRate'' @ '':'' @ dec (unat audioSampleRate)
              @ '','' @ quoted ''audioBitDepth'' @ '':'' @ dec (unat audioBitDepth)
              @ ''}'' @ nl, 0))"

text \<open>\<^verbatim>\<open>CmdExtractFrame\<close> prints nothing on standard output.\<close>

definition CmdExtractFrame ::
  "platform \<Rightarrow> braw_sdk \<Rightarrow> string \<Rightarrow> fval \<Rightarrow> string \<Rightarrow> 32 word \<Rightarrow> string \<times> int" where
  "CmdExtractFrame pf sdk filePath timeSec outputPath maxDim =
     (if \<not> CreateFactory sdk then ([], 1)
      else if CreateCodec sdk \<noteq> S_OK then ([], 1)
      else if OpenClip sdk filePath \<noteq> S_OK then ([], 1)
      else ([], ExtractOneFrame pf sdk 0 (GetFrameRate sdk) timeSec outputPath maxDim))"

text \<open>
  The loop of \<^verbatim>\<open>CmdExtractFrames\<close> from index \<open>i\<close> on, over the times that are left:
  \<^verbatim>\<open>
    char outPath[4096];
    snprintf(outPath, sizeof(outPath), "%s/frame_%04zu.jpg", outputDir, i);
    int frameRet = ExtractOneFrame(codec, clip, fps, times[i], outPath, maxDim);
    if (i > 0) printf(",");
    if (frameRet == 0) printf("\"%s\"", outPath);
    else printf("null");\<close>
\<close>

fun braw_frames_loop ::
  "platform \<Rightarrow> braw_sdk \<Rightarrow> fval \<Rightarrow> string \<Rightarrow> 32 word \<Rightarrow> nat \<Rightarrow> fval list \<Rightarrow> string" where
  "braw_frames_loop pf sdk fps outputDir maxDim i [] = []"
| "braw_frames_loop pf sdk fps outputDir maxDim i (t # ts) =
     (let outPath = snprintf_frame 4096 outputDir i;
          frameRet = ExtractOneFrame pf sdk i fps t outPath maxDim
      in (if 0 < i then '','' else [])
         @ (if frameRet = 0 then quoted outPath else ''null'')
         @ braw_frames_loop pf sdk fps outputDir maxDim (Suc i) ts)"

definition CmdExtractFrames ::
  "platform \<Rightarrow> braw_sdk \<Rightarrow> string \<Rightarrow> string \<Rightarrow> string \<Rightarrow> 32 word \<Rightarrow> string \<times> int" where
  "CmdExtractFrames pf sdk filePath timesJSON outputDir maxDim =
     (let times = ParseTimesJSON (libc_strtod pf) timesJSON in
      if times = [] then ([], 1)
      else if \<not> CreateFactory sdk then ([], 1)
      else if CreateCodec sdk \<noteq> S_OK then ([], 1)
      else if OpenClip sdk filePath \<noteq> S_OK then ([], 1)
      else (''['' @ braw_frames_loop pf sdk (GetFrameRate sdk) outputDir maxDim 0 times
              @ '']'' @ nl, 0))"

text \<open>
  \<^verbatim>\<open>struct WavHeader\<close> (packed, 44 bytes); the four tags are constant.
\<close>

record WavHeader =
  wavContentSize :: "32 word"
  fmtChunkSize :: "32 word"
  audioFormat :: "16 word"
  channelCount :: "16 word"
  sampleRate :: "32 word"
  bytesPerSecond :: "32 word"
  blockAlign :: "16 word"
  bitDepth :: "16 word"
  dataBytes :: "32 word"

definition WavHeader_bytes :: "WavHeader \<Rightarrow> 8 word list" where
  "WavHeader_bytes hdr =
     tag ''RIFF'' @ le32 (wavContentSize hdr) @ tag ''WAVE'' @ tag ''fmt ''
     @ le32 (fmtChunkSize hdr) @ le16 (audioFormat hdr) @ le16 (channelCount hdr)
     @ le32 (sampleRate hdr) @ le32 (bytesPerSecond hdr) @ le16 (blockAlign hdr)
     @ le16 (bitDepth hdr) @ tag ''data'' @ le32 (dataBytes hdr)"

text \<open>
  The header \<^verbatim>\<open>CmdExtractAudio\<close> fills in before it reads any sample:
  \<^verbatim>\<open>
    uint64_t dataBytes = (sampleCount * channelCount * bitDepth) / 8;
    hdr.channelCount    = (uint16_t)channelCount;
    hdr.sampleRate      = sampleRate;
    hdr.bytesPerSecond  = sampleRate * channelCount * bitDepth / 8;
    hdr.blockAlign      = (uint16_t)(channelCount * bitDepth / 8);
    hdr.bitDepth        = (uint16_t)bitDepth;
    hdr.dataBytes       = (uint32_t)dataBytes;
    hdr.wavContentSize  = 36 + (uint32_t)dataBytes;\<close>
\<close>

definition braw_header :: "64 word \<Rightarrow> 32 word \<Rightarrow> 32 word \<Rightarrow> 32 word \<Rightarrow> WavHeader" where
  "braw_header sampleCount bitDepth' channelCount' sampleRate' =
     (let dataBytes' = (sampleCount * ucast channelCount' * ucast bitDepth') div 8 :: 64 word
      in \<lparr> wavContentSize = 36 + ucast dataBytes',
           fmtChunkSize = 16,
           audioFormat = 1,
           channelCount = ucast channelCount',
           sampleRate = sampleRate',
           bytesPerSecond = sampleRate' * channelCount' * bitDepth' div 8,
           blockAlign = ucast (channelCount' * bitDepth' div 8),
           bitDepth = ucast bitDepth',
           dataBytes = ucast dataBytes' \<rparr>)"

text \<open>
  The read loop, which returns the bytes written after the header:
  \<^verbatim>\<open>
    while (sampleIndex < sampleCount) {
        uint32_t samplesRead = 0, bytesRead = 0;
        hr = audio->GetAudioSamples((int64_t)sampleIndex, buffer.data(),
                                     bufSize, kMaxSamples, &samplesRead, &bytesRead);
        if (hr != S_OK || samplesRead == 0) break;
        fwrite(buffer.data(), bytesRead, 1, f);
        sampleIndex += samplesRead;
    }\<close>
  Nothing in the code bounds the number of rounds, so the loop is a partial function.
\<close>

partial_function (option) braw_audio_loop ::
  "braw_sdk \<Rightarrow> 64 word \<Rightarrow> 64 word \<Rightarrow> 8 word list \<Rightarrow> 8 word list option" where
  "braw_audio_loop sdk sampleCount sampleIndex written =
     (if sampleIndex < sampleCount then
        (case GetAudioSamples sdk sampleIndex of (hr, samplesRead, bytes) \<Rightarrow>
           if hr \<noteq> S_OK \<or> samplesRead = 0 then Some written
           else braw_audio_loop sdk sampleCount (sampleIndex + ucast samplesRead)
                  (written @ bytes))
      else Some written)"

text \<open>
  \<^verbatim>\<open>CmdExtractAudio\<close>. The line it prints when it has closed the file:
  \<^verbatim>\<open>{"sampleRate":%u,"channels":%u,"bitDepth":%u,"samples":%llu,"outputPath":"%s"}\<close>
\<close>

definition CmdExtractAudio ::
  "platform \<Rightarrow> braw_sdk \<Rightarrow> string \<Rightarrow> string \<Rightarrow> (string \<times> int \<times> 8 word list option) option" where
  "CmdExtractAudio pf sdk filePath outputPath =
     (if \<not> CreateFactory sdk then Some ([], 1, None)
      else if CreateCodec sdk \<noteq> S_OK then Some ([], 1, None)
      else if OpenClip sdk filePath \<noteq> S_OK then Some ([], 1, None)
      else if fst (QueryInterface_audio sdk) \<noteq> S_OK then Some ([], 1, None)
      else if \<not> snd (QueryInterface_audio sdk) then Some ([], 1, None)
      else if GetAudioSampleCount sdk = 0 \<or> GetAudioChannelCount sdk = 0
        then Some ([], 1, None)
      else if \<not> fopen_wb pf outputPath then Some ([], 1, None)
      else
        (case braw_audio_loop sdk (GetAudioSampleCount sdk) 0 [] of
           None \<Rightarrow> None
         | Some payload \<Rightarrow>
             Some (''{'' @ quoted ''sampleRate'' @ '':'' @ dec (unat (GetAudioSampleRate sdk))
                     @ '','' @ quoted ''channels'' @ '':'' @ dec (unat (GetAudioChannelCount sdk))
                     @ '','' @ quoted ''bitDepth'' @ '':'' @ dec (unat (GetAudioBitDepth sdk))
                     @ '','' @ quoted ''samples'' @ '':'' @ dec (unat (GetAudioSampleCount sdk))
                     @ '','' @ quoted ''outputPath'' @ '':'' @ quoted outputPath
                     @ ''}'' @ nl,
                   0,
                   Some (WavHeader_bytes
                           (braw_header (GetAudioSampleCount sdk) (GetAudioBitDepth sdk)
                              (GetAudioChannelCount sdk) (GetAudioSampleRate sdk))
                         @ payload))))"

text \<open>
  \<^verbatim>\<open>main\<close> of braw-tool; \<open>argv\<close> starts with the program name.
  \<^verbatim>\<open>
    if (argc < 3) { PrintUsage(argv[0]); return 1; }
    int maxDim = 512;
    int effectiveArgc = argc;
    for (int i = 3; i < argc - 1; i++)
        if (strcmp(argv[i], "--max-dim") == 0)
        { maxDim = atoi(argv[i + 1]); effectiveArgc = i; break; }\<close>
  and then the dispatch on \<^verbatim>\<open>argv[1]\<close> and \<^verbatim>\<open>effectiveArgc\<close>.
\<close>

definition braw_main ::
  "platform \<Rightarrow> braw_sdk \<Rightarrow> string list \<Rightarrow> (string \<times> int \<times> 8 word list option) option" where
  "braw_main pf sdk argv =
     (if length argv < 3 then Some ([], 1, None)
      else
        let found = max_dim_scan (libc_atoi pf) 3 (drop 3 argv);
            maxDim = (case found of Some (m, i) \<Rightarrow> m | None \<Rightarrow> 512);
            effectiveArgc = (case found of Some (m, i) \<Rightarrow> i | None \<Rightarrow> length argv);
            cmd = argv ! 1
        in if cmd = ''probe'' \<and> 3 \<le> effectiveArgc then
             (case CmdProbe pf sdk (argv ! 2) of (out, r) \<Rightarrow> Some (out, r, None))
           else if cmd = ''extract-frame'' \<and> 5 \<le> effectiveArgc then
             (case CmdExtractFrame pf sdk (argv ! 2) (libc_atof pf (argv ! 3)) (argv ! 4) maxDim
              of (out, r) \<Rightarrow> Some (out, r, None))
           else if cmd = ''extract-frames'' \<and> 5 \<le> effectiveArgc then
             (case CmdExtractFrames pf sdk (argv ! 2) (argv ! 3) (argv ! 4) maxDim
              of (out, r) \<Rightarrow> Some (out, r, None))
           else if cmd = ''extract-audio'' \<and> 4 \<le> effectiveArgc then
             CmdExtractAudio pf sdk (argv ! 2) (argv ! 3)
           else Some ([], 1, None))"

subsection \<open>r3d-tool\<close>

text \<open>
  The status types of the R3D SDK: the value the code compares with, and any other.
\<close>

datatype InitializeStatus = ISInitializeOK | ISOther int

datatype LoadStatus = LSClipLoaded | LSOther int

datatype DecodeStatus = DSDecodeOK | DSOther int

text \<open>
  The SDK and the clip for one run. The metadata items: \<^verbatim>\<open>RMD_SAMPLERATE\<close> as the
  \<^verbatim>\<open>unsigned int\<close> the code stores, whether \<^verbatim>\<open>RMD_AUDIO_FORMAT\<close> exists and its value,
  \<^verbatim>\<open>RMD_REDCODE\<close> and \<^verbatim>\<open>RMD_CAMERA_MODEL\<close> as strings when they exist.
  \<open>DecodeVideoFrame n i\<close> is the status of the \<open>n\<close>-th decode of the run, of frame \<open>i\<close>.
  \<^verbatim>\<open>DecodeAudio\<close> and \<^verbatim>\<open>DecodeFloatAudio\<close>, at a start sample and a wanted number of
  samples, give the status, the number of samples delivered and the buffer, read as bytes
  or as \<^verbatim>\<open>float\<close>s.
\<close>

record r3d_sdk =
  InitializeSdk :: InitializeStatus
  LoadFrom :: "string \<Rightarrow> LoadStatus"
  Width :: "64 word"
  Height :: "64 word"
  VideoAudioFramerate :: fval
  VideoFrameCount :: "64 word"
  AudioChannelCount :: "64 word"
  RMD_SAMPLERATE :: "32 word"
  RMD_AUDIO_FORMAT :: "int option"
  RMD_REDCODE :: "string option"
  RMD_CAMERA_MODEL :: "string option"
  AudioSampleCount :: "64 word"
  DecodeVideoFrame :: "nat \<Rightarrow> 64 word \<Rightarrow> DecodeStatus"
  DecodeAudio :: "64 word \<Rightarrow> 64 word \<Rightarrow> DecodeStatus \<times> 64 word \<times> (nat \<Rightarrow> 8 word)"
  DecodeFloatAudio :: "64 word \<Rightarrow> 64 word \<Rightarrow> DecodeStatus \<times> 64 word \<times> (nat \<Rightarrow> fval)"

text \<open>\<^verbatim>\<open>jsonEscape\<close>.\<close>

fun jsonEscape :: "string \<Rightarrow> string" where
  "jsonEscape [] = []"
| "jsonEscape (c # s) =
     (if c = CHR 0x22 then [CHR 0x5C, CHR 0x22]
      else if c = CHR 0x5C then [CHR 0x5C, CHR 0x5C]
      else if c = CHR 0x0A then [CHR 0x5C, CHR ''n'']
      else if c = CHR 0x0D then [CHR 0x5C, CHR ''r'']
      else if c = CHR 0x09 then [CHR 0x5C, CHR ''t'']
      else [c]) @ jsonEscape s"

text \<open>\<^verbatim>\<open>writeBGRAasJPEG\<close>: the target size, then CoreGraphics.\<close>

definition writeBGRAasJPEG :: "platform \<Rightarrow> 64 word \<Rightarrow> 64 word \<Rightarrow> string \<Rightarrow> 32 word \<Rightarrow> bool" where
  "writeBGRAasJPEG pf width height outputPath maxDim =
     (let out = writeBGRAasJPEG_dims (cvt_u64 pf) width height maxDim
      in jpeg_finalized pf outputPath (unat (fst out)) (unat (snd out)))"

text \<open>
  \<^verbatim>\<open>decodeFrame\<close>; \<open>n\<close> counts the frames the run has asked for before this one.
  \<^verbatim>\<open>
    size_t decW = fullW / 4, decH = fullH / 4;
    if (decW > 2048) { mode = DECODE_EIGHT_RES_GOOD; decW = fullW / 8; decH = fullH / 8; }
    if (decW == 0) decW = 1;
    if (decH == 0) decH = 1;
    size_t bufSize = decW * decH * 4;
    void* buf = alignedAlloc(16, bufSize);
    if (!buf) return 1;
    auto ds = clip.DecodeVideoFrame(frameNo, job);
    if (ds != R3DSDK::DSDecodeOK) return 1;
    bool ok = writeBGRAasJPEG(buf, decW, decH, outputPath, maxDim);
    if (!ok) return 1;
    return 0;\<close>
\<close>

definition decodeFrame :: "platform \<Rightarrow> r3d_sdk \<Rightarrow> nat \<Rightarrow> fval \<Rightarrow> string \<Rightarrow> 32 word \<Rightarrow> int" where
  "decodeFrame pf sdk n timeSec outputPath maxDim =
     (let fullW = Width sdk;
          fullH = Height sdk;
          frameNo = r3d_frame_no (cvt_u64 pf) (VideoAudioFramerate sdk) timeSec
                      (VideoFrameCount sdk);
          eighth = (2048 < fullW div 4);
          decW0 = (if eighth then fullW div 8 else fullW div 4);
          decH0 = (if eighth then fullH div 8 else fullH div 4);
          decW = (if decW0 = 0 then 1 else decW0);
          decH = (if decH0 = 0 then 1 else decH0);
          bufSize = decW * decH * 4
      in if \<not> posix_memalign_ok pf n bufSize then 1
         else if DecodeVideoFrame sdk n frameNo \<noteq> DSDecodeOK then 1
         else if \<not> writeBGRAasJPEG pf decW decH outputPath maxDim then 1
         else 0)"

text \<open>
  \<^verbatim>\<open>cmd_probe\<close>. The line it prints:
  \<^verbatim>\<open>{"width":%zu,"height":%zu,"fps":%.3f,"frameCount":%zu,"duration":%.3f,"codec":"%s",
  "audioChannels":%zu,"audioSampleRate":%u,"camera":"%s"}\<close>
\<close>

definition cmd_probe :: "platform \<Rightarrow> r3d_sdk \<Rightarrow> string \<Rightarrow> string \<times> int" where
  "cmd_probe pf sdk filePath =
     (if LoadFrom sdk filePath \<noteq> LSClipLoaded then ([], 1)
      else
        let fps = VideoAudioFramerate sdk;
            frames = VideoFrameCount sdk;
            duration = probe_duration fps frames;
            audioChannels = AudioChannelCount sdk;
            sampleRate0 = (if 0 < audioChannels then RMD_SAMPLERATE sdk else 0);
            sampleRate1 = (if 0 < audioChannels \<and> sampleRate0 = 0 then 48000 else sampleRate0);
            codec = (case RMD_REDCODE sdk of Some s \<Rightarrow> s | None \<Rightarrow> ''REDCODE'');
            camera = (case RMD_CAMERA_MODEL sdk of Some s \<Rightarrow> s | None \<Rightarrow> [])
        in (''{'' @ quoted ''width'' @ '':'' @ dec (unat (Width sdk))
              @ '','' @ quoted ''height'' @ '':'' @ dec (unat (Height sdk))
              @ '','' @ quoted ''fps'' @ '':'' @ printf_f pf 3 fps
              @ '','' @ quoted ''frameCount'' @ '':'' @ dec (unat frames)
              @ '','' @ quoted ''duration'' @ '':'' @ printf_f pf 3 duration
              @ '','' @ quoted ''codec'' @ '':'' @ quoted (jsonEscape codec)
              @ '','' @ quoted ''audioChannels'' @ '':'' @ dec (unat audioChannels)
              @ '','' @ quoted ''audioSampleRate'' @ '':'' @ dec (unat sampleRate1)
              @ '','' @ quoted ''camera'' @ '':'' @ quoted (jsonEscape camera)
              @ ''}'' @ nl, 0))"

definition cmd_extract_frame ::
  "platform \<Rightarrow> r3d_sdk \<Rightarrow> string \<Rightarrow> fval \<Rightarrow> string \<Rightarrow> 32 word \<Rightarrow> string \<times> int" where
  "cmd_extract_frame pf sdk filePath timeSec outputPath maxDim =
     (if LoadFrom sdk filePath \<noteq> LSClipLoaded then ([], 1)
      else ([], decodeFrame pf sdk 0 timeSec outputPath maxDim))"

text \<open>
  The loop of \<^verbatim>\<open>cmd_extract_frames\<close> from index \<open>i\<close> on, with its buffer
  \<^verbatim>\<open>char path[2048]\<close>.
\<close>

fun r3d_frames_loop ::
  "platform \<Rightarrow> r3d_sdk \<Rightarrow> string \<Rightarrow> 32 word \<Rightarrow> nat \<Rightarrow> fval list \<Rightarrow> string" where
  "r3d_frames_loop pf sdk outputDir maxDim i [] = []"
| "r3d_frames_loop pf sdk outputDir maxDim i (t # ts) =
     (let path = snprintf_frame 2048 outputDir i;
          ret = decodeFrame pf sdk i t path maxDim
      in (if 0 < i then '','' else [])
         @ (if ret = 0 then quoted path else ''null'')
         @ r3d_frames_loop pf sdk outputDir maxDim (Suc i) ts)"

definition cmd_extract_frames ::
  "platform \<Rightarrow> r3d_sdk \<Rightarrow> string \<Rightarrow> string \<Rightarrow> string \<Rightarrow> 32 word \<Rightarrow> string \<times> int" where
  "cmd_extract_frames pf sdk filePath timesJson outputDir maxDim =
     (let times = r3d_parse_times (libc_strtod pf) timesJson in
      if times = [] then ([], 1)
      else if LoadFrom sdk filePath \<noteq> LSClipLoaded then ([], 1)
      else (''['' @ r3d_frames_loop pf sdk outputDir maxDim 0 times @ '']'' @ nl, 0))"

text \<open>
  \<^verbatim>\<open>struct WAVHeader\<close> of r3d-tool has the layout of braw-tool's \<^verbatim>\<open>WavHeader\<close> under
  other field names (\<^verbatim>\<open>fileSize\<close>, \<^verbatim>\<open>fmtSize\<close>, \<^verbatim>\<open>audioFmt\<close>, \<^verbatim>\<open>channels\<close>, \<^verbatim>\<open>sampleRate\<close>,
  \<^verbatim>\<open>byteRate\<close>, \<^verbatim>\<open>blockAlign\<close>, \<^verbatim>\<open>bitsPerSamp\<close>, \<^verbatim>\<open>dataSize\<close>); the model uses one record
  for both. The header \<^verbatim>\<open>cmd_extract_audio\<close> writes, first with \<open>dataBytes = 0\<close> and no
  file size, and again at the end with the sizes:
  \<^verbatim>\<open>
    hdr.channels    = (uint16_t)channels;
    hdr.sampleRate  = sr;
    hdr.bitsPerSamp = 16;
    hdr.blockAlign  = (uint16_t)(channels * 2);
    hdr.byteRate    = sr * hdr.blockAlign;
    ...
    hdr.dataSize = dataBytes;
    hdr.fileSize = 36 + dataBytes;\<close>
\<close>

definition r3d_header :: "64 word \<Rightarrow> 32 word \<Rightarrow> 32 word option \<Rightarrow> WavHeader" where
  "r3d_header channels sr sizes =
     \<lparr> wavContentSize = (case sizes of None \<Rightarrow> 0 | Some d \<Rightarrow> 36 + d),
       fmtChunkSize = 16,
       audioFormat = 1,
       channelCount = ucast channels,
       sampleRate = sr,
       bytesPerSecond = sr * ucast (ucast (channels * 2) :: 16 word),
       blockAlign = ucast (channels * 2),
       bitDepth = 16,
       dataBytes = (case sizes of None \<Rightarrow> 0 | Some d \<Rightarrow> d) \<rparr>"

text \<open>
  The decode loop, which returns \<^verbatim>\<open>dataBytes\<close> and the bytes written after the header:
  \<^verbatim>\<open>
    while (decoded < totalSamples) {
        size_t want = chunkSamples;
        if (totalSamples - decoded < want) want = (size_t)(totalSamples - decoded);
        size_t got = want;
        if (isFloat) ds = clip.DecodeFloatAudio(decoded, &got, buf, chunkBytes);
        else         ds = clip.DecodeAudio(decoded, &got, buf, chunkBytes);
        if (ds != R3DSDK::DSDecodeOK || got == 0) break;
        size_t totalValues = got * channels;
        ... out16[i] = ... for i < totalValues ...
        size_t wb = totalValues * 2;
        fwrite(out16.data(), 1, wb, fout);
        dataBytes += (uint32_t)wb;
        decoded += got;
    }\<close>
  Nothing in the code bounds the number of rounds, so the loop is a partial function.
\<close>

partial_function (option) r3d_audio_loop ::
  "platform \<Rightarrow> r3d_sdk \<Rightarrow> 64 word \<Rightarrow> bool \<Rightarrow> 64 word \<Rightarrow> 64 word \<Rightarrow> 32 word \<Rightarrow> 8 word list
     \<Rightarrow> (32 word \<times> 8 word list) option" where
  "r3d_audio_loop pf sdk channels isFloat totalSamples decoded dataBytes' written =
     (if decoded < totalSamples then
        (let want = (if totalSamples - decoded < 48000 then totalSamples - decoded else 48000);
             ds = (if isFloat then fst (DecodeFloatAudio sdk decoded want)
                   else fst (DecodeAudio sdk decoded want));
             got = (if isFloat then fst (snd (DecodeFloatAudio sdk decoded want))
                    else fst (snd (DecodeAudio sdk decoded want)))
         in if ds \<noteq> DSDecodeOK \<or> got = 0 then Some (dataBytes', written)
            else
              let totalValues = got * channels;
                  out16 = convert_chunk (cvt_s16 pf) isFloat
                            (snd (snd (DecodeFloatAudio sdk decoded want)))
                            (snd (snd (DecodeAudio sdk decoded want)))
                            (unat totalValues);
                  wb = totalValues * 2
              in r3d_audio_loop pf sdk channels isFloat totalSamples (decoded + got)
                   (dataBytes' + ucast wb)
                   (written @ take (unat wb) (concat (map le16 out16))))
      else Some (dataBytes', written))"

text \<open>
  \<^verbatim>\<open>cmd_extract_audio\<close> prints nothing on standard output. When the buffer cannot be
  allocated the file keeps the placeholder header.
\<close>

definition cmd_extract_audio ::
  "platform \<Rightarrow> r3d_sdk \<Rightarrow> string \<Rightarrow> string \<Rightarrow> (string \<times> int \<times> 8 word list option) option" where
  "cmd_extract_audio pf sdk filePath outputPath =
     (if LoadFrom sdk filePath \<noteq> LSClipLoaded then Some ([], 1, None)
      else if AudioChannelCount sdk = 0 then Some ([], 1, None)
      else
        let channels = AudioChannelCount sdk;
            sr = (if RMD_SAMPLERATE sdk = 0 then 48000 else RMD_SAMPLERATE sdk);
            isFloat = (RMD_AUDIO_FORMAT sdk = Some 1);
            totalSamples = AudioSampleCount sdk
        in if \<not> fopen_wb pf outputPath then Some ([], 1, None)
           else if \<not> posix_memalign_ok pf 0 (48000 * channels * 4)
             then Some ([], 1, Some (WavHeader_bytes (r3d_header channels sr None)))
           else
             (case r3d_audio_loop pf sdk channels isFloat totalSamples 0 0 [] of
                None \<Rightarrow> None
              | Some (dataBytes', payload) \<Rightarrow>
                  Some ([], 0,
                        Some (WavHeader_bytes (r3d_header channels sr (Some dataBytes'))
                              @ payload))))"

text \<open>
  \<^verbatim>\<open>main\<close> of r3d-tool; \<open>argv\<close> starts with the program name. The SDK is initialised
  before the dispatch; \<^verbatim>\<open>parseMaxDim(argc, argv, 5)\<close> scans from the sixth argument.
\<close>

definition parseMaxDim :: "platform \<Rightarrow> string list \<Rightarrow> nat \<Rightarrow> 32 word" where
  "parseMaxDim pf argv start =
     (case max_dim_scan (libc_atoi pf) start (drop start argv) of
        Some (m, i) \<Rightarrow> m | None \<Rightarrow> 512)"

definition r3d_main ::
  "platform \<Rightarrow> r3d_sdk \<Rightarrow> string list \<Rightarrow> (string \<times> int \<times> 8 word list option) option" where
  "r3d_main pf sdk argv =
     (if length argv < 2 then Some ([], 1, None)
      else if InitializeSdk sdk \<noteq> ISInitializeOK then Some ([], 1, None)
      else
        let cmd = argv ! 1 in
        if cmd = ''probe'' \<and> 3 \<le> length argv then
          (case cmd_probe pf sdk (argv ! 2) of (out, r) \<Rightarrow> Some (out, r, None))
        else if cmd = ''extract-frame'' \<and> 5 \<le> length argv then
          (case cmd_extract_frame pf sdk (argv ! 2) (libc_atof pf (argv ! 3)) (argv ! 4)
                  (parseMaxDim pf argv 5)
           of (out, r) \<Rightarrow> Some (out, r, None))
        else if cmd = ''extract-frames'' \<and> 5 \<le> length argv then
          (case cmd_extract_frames pf sdk (argv ! 2) (argv ! 3) (argv ! 4)
                  (parseMaxDim pf argv 5)
           of (out, r) \<Rightarrow> Some (out, r, None))
        else if cmd = ''extract-audio'' \<and> 4 \<le> length argv then
          cmd_extract_audio pf sdk (argv ! 2) (argv ! 3)
        else Some ([], 1, None))"

section \<open>Concrete runs\<close>

text \<open>
  Stand-ins for libc on plain inputs, to run the commands on concrete arguments:
  \<^verbatim>\<open>strtod\<close> and \<^verbatim>\<open>atof\<close> round the decimal numeral to \<^verbatim>\<open>double\<close>, \<^verbatim>\<open>atoi\<close> reads leading
  digits, and \<^verbatim>\<open>%.Nf\<close> prints the value rounded to \<open>N\<close> decimals, ties to even. Every
  file can be created, every allocation succeeds and every JPEG is finalized.
\<close>

definition strtod_double :: "string \<Rightarrow> fval \<times> nat" where
  "strtod_double s =
     (dbl_round (fst (strtod_plain s) < 0) \<bar>fst (strtod_plain s)\<bar>, snd (strtod_plain s))"

definition printf_fixed :: "nat \<Rightarrow> fval \<Rightarrow> string" where
  "printf_fixed n x =
     (case x of
        Fin r \<Rightarrow>
          (let m = nat (round_even (\<bar>r\<bar> * 10 ^ n));
               frac = dec (m mod 10 ^ n)
           in (if r < 0 then ''-'' else []) @ dec (m div 10 ^ n)
              @ (if n = 0 then [] else ''.'' @ replicate (n - length frac) CHR ''0'' @ frac))
      | NegZero \<Rightarrow> ''-0'' @ (if n = 0 then [] else ''.'' @ replicate n CHR ''0'')
      | PInf \<Rightarrow> ''inf''
      | NInf \<Rightarrow> ''-inf''
      | NaN \<Rightarrow> ''nan'')"

definition pf_example :: platform where
  "pf_example =
     \<lparr> libc_strtod = strtod_double,
       libc_atof = (\<lambda>s. fst (strtod_double s)),
       libc_atoi = (\<lambda>s. of_nat (digits_val (takeWhile is_digit s))),
       printf_f = printf_fixed,
       fopen_wb = (\<lambda>path. True),
       posix_memalign_ok = (\<lambda>n bytes. True),
       jpeg_finalized = (\<lambda>path w h. True),
       cvt_u32 = (\<lambda>x. 0),
       cvt_u64 = (\<lambda>x. 0),
       cvt_s16 = (\<lambda>x. 0) \<rparr>"

text \<open>
  A BRAW clip of 240 frames at 24 frames per second with one second of 16-bit stereo
  audio. The SDK decodes every frame but the second one the run asks for, whose read
  completes with \<^verbatim>\<open>E_FAIL\<close>, and fails every \<^verbatim>\<open>GetAudioSamples\<close>. No other file opens.
\<close>

definition E_FAIL :: HRESULT where
  "E_FAIL = 0x80004005"

definition job_ok :: braw_job where
  "job_ok =
     \<lparr> SetCallback = S_OK,
       CreateJobReadFrame = S_OK,
       Submit_read = S_OK,
       ReadComplete_hr = S_OK,
       CreateJobDecodeAndProcessFrame = S_OK,
       Submit_decode = S_OK,
       ProcessComplete_hr = S_OK,
       img_GetWidth = (S_OK, 1024),
       img_GetHeight = (S_OK, 540),
       img_GetResourceSizeBytes = S_OK,
       img_GetResource = (S_OK, True) \<rparr>"

definition braw_clip :: braw_sdk where
  "braw_clip =
     \<lparr> CreateFactory = True,
       CreateCodec = S_OK,
       OpenClip = (\<lambda>path. if path = ''clip.braw'' then S_OK else E_FAIL),
       GetWidth = 4096,
       GetHeight = 2160,
       GetFrameRate = Fin 24,
       GetFrameCount = 240,
       QueryInterface_audio = (S_OK, True),
       GetAudioChannelCount = 2,
       GetAudioSampleRate = 48000,
       GetAudioBitDepth = 16,
       GetAudioSampleCount = 48000,
       GetAudioSamples = (\<lambda>sampleIndex. (E_FAIL, 0, [])),
       frame_job = (\<lambda>n frameIndex. if n = 1 then job_ok\<lparr>ReadComplete_hr := E_FAIL\<rparr> else job_ok) \<rparr>"

text \<open>
  An R3D clip of the same shape. The SDK decodes every frame but the second one the run
  asks for and fails every audio decode. No other file loads.
\<close>

definition r3d_clip :: r3d_sdk where
  "r3d_clip =
     \<lparr> InitializeSdk = ISInitializeOK,
       LoadFrom = (\<lambda>path. if path = ''clip.R3D'' then LSClipLoaded else LSOther 1),
       Width = 4096,
       Height = 2160,
       VideoAudioFramerate = Fin 24,
       VideoFrameCount = 240,
       AudioChannelCount = 2,
       RMD_SAMPLERATE = 48000,
       RMD_AUDIO_FORMAT = None,
       RMD_REDCODE = Some ''REDCODE 8:1'',
       RMD_CAMERA_MODEL = Some ''KOMODO'',
       AudioSampleCount = 48000,
       DecodeVideoFrame = (\<lambda>n frameNo. if n = 1 then DSOther 1 else DSDecodeOK),
       DecodeAudio = (\<lambda>start want. (DSOther 1, 0, \<lambda>i. 0)),
       DecodeFloatAudio = (\<lambda>start want. (DSOther 1, 0, \<lambda>i. Fin 0)) \<rparr>"


text \<open>The \<^verbatim>\<open>dataBytes\<close> field of a header, read back from the bytes of a file.\<close>

definition wav_dataBytes :: "8 word list \<Rightarrow> 32 word" where
  "wav_dataBytes file =
     ucast (file ! 40) OR push_bit 8 (ucast (file ! 41)) OR push_bit 16 (ucast (file ! 42))
     OR push_bit 24 (ucast (file ! 43))"









section \<open>Facts about rounding\<close>

lemma inv_le_swap: "0 < x \<Longrightarrow> 0 < y \<Longrightarrow> 1 / x \<le> y \<Longrightarrow> 1 / y \<le> (x::rat)"
  by (simp add: field_simps)

lemma inv_less_swap: "0 < x \<Longrightarrow> 0 < y \<Longrightarrow> y < 1 / x \<Longrightarrow> x < 1 / (y::rat)"
  by (simp add: field_simps)

lemma pow2_neg: "(2::rat) powi (- int j) = 1 / 2 ^ j"
  by (simp add: power_int_minus divide_inverse)

lemma rat_pow2_le_of_nat: "2 ^ k \<le> (n::nat) \<Longrightarrow> (2::rat) ^ k \<le> of_nat n"
proof -
  assume "2 ^ k \<le> n"
  hence "rat_of_nat (2 ^ k) \<le> of_nat n" by (rule of_nat_mono)
  thus ?thesis by simp
qed

lemma rat_of_nat_less_pow2: "(n::nat) < 2 ^ k \<Longrightarrow> rat_of_nat n + 1 \<le> 2 ^ k"
proof -
  assume "n < 2 ^ k"
  hence "Suc n \<le> 2 ^ k" by simp
  hence "rat_of_nat (Suc n) \<le> of_nat (2 ^ k)" by (rule of_nat_mono)
  thus ?thesis by simp
qed

lemma ilog2_bounds_ge1:
  assumes "1 \<le> x"
  shows "2 powi (ilog2 x) \<le> x \<and> x < 2 powi (ilog2 x + 1)"
proof -
  define n where "n = nat \<lfloor>x\<rfloor>"
  have n1: "1 \<le> n" using assms by (simp add: n_def le_nat_iff)
  have nx1: "of_nat n \<le> x" using assms by (simp add: n_def)
  have nx2: "x < of_nat n + 1" using assms by (simp add: n_def) linarith
  from floorlog_bounds[of n 2] n1
  have b: "2 ^ (floorlog 2 n - 1) \<le> n" "n < 2 ^ floorlog 2 n" by simp_all
  have fpos: "1 \<le> floorlog 2 n"
    using n1 by (simp add: floorlog_def)
  have k: "ilog2 x = int (floorlog 2 n - 1)"
    using assms fpos by (simp add: ilog2_def n_def)
  have k1: "ilog2 x + 1 = int (floorlog 2 n)"
    using k fpos by simp
  have "(2::rat) ^ (floorlog 2 n - 1) \<le> of_nat n"
    using b(1) by (rule rat_pow2_le_of_nat)
  hence "(2::rat) ^ (floorlog 2 n - 1) \<le> x" using nx1 by (rule order_trans)
  hence lo: "2 powi (ilog2 x) \<le> x" unfolding k power_int_of_nat .
  have "of_nat n + 1 \<le> (2::rat) ^ floorlog 2 n"
    using b(2) by (rule rat_of_nat_less_pow2)
  with nx2 have "x < (2::rat) ^ floorlog 2 n" by (rule less_le_trans)
  hence hi: "x < 2 powi (ilog2 x + 1)" unfolding k1 power_int_of_nat .
  show ?thesis using lo hi by (rule conjI)
qed

lemma ilog2_bounds_lt1:
  assumes "0 < x" "x < 1"
  shows "2 powi (ilog2 x) \<le> x \<and> x < 2 powi (ilog2 x + 1)"
proof -
  define c where "c = nat \<lceil>1 / x\<rceil>"
  define j where "j = floorlog 2 (c - 1)"
  have inv: "1 < 1 / x" using assms by simp
  have c2: "2 \<le> c" using inv unfolding c_def by linarith
  have cx1: "1 / x \<le> of_nat c" using inv unfolding c_def by (simp add: of_nat_ceiling)
  have cx2: "of_nat c - 1 < 1 / x" using inv unfolding c_def by simp linarith
  from floorlog_bounds[of "c - 1" 2] c2
  have b: "2 ^ (j - 1) \<le> c - 1" "c - 1 < 2 ^ j" by (simp_all add: j_def)
  have jpos: "1 \<le> j" using c2 by (simp add: j_def floorlog_def)
  have k: "ilog2 x = - int j" using assms by (simp add: ilog2_def c_def j_def)
  have c1: "rat_of_nat (c - 1) = of_nat c - 1" using c2 by (simp add: of_nat_diff)
  have "rat_of_nat (c - 1) + 1 \<le> 2 ^ j" using b(2) by (rule rat_of_nat_less_pow2)
  hence "of_nat c \<le> (2::rat) ^ j" unfolding c1 by simp
  with cx1 have "1 / x \<le> 2 ^ j" by (rule order_trans)
  hence "1 / 2 ^ j \<le> x" using assms(1) inv_le_swap[of x "2 ^ j"] by simp
  hence lo: "2 powi (ilog2 x) \<le> x" unfolding k pow2_neg .
  have "(2::rat) ^ (j - 1) \<le> of_nat (c - 1)"
    using b(1) by (rule rat_pow2_le_of_nat)
  hence "(2::rat) ^ (j - 1) < 1 / x" using cx2 unfolding c1 by linarith
  hence "x < 1 / 2 ^ (j - 1)" using assms(1) inv_less_swap[of x "2 ^ (j - 1)"] by simp
  moreover have "ilog2 x + 1 = - int (j - 1)" using k jpos by simp
  ultimately have hi: "x < 2 powi (ilog2 x + 1)" by (simp only: pow2_neg)
  show ?thesis using lo hi by (rule conjI)
qed

lemma ilog2_bounds:
  "0 < x \<Longrightarrow> 2 powi (ilog2 x) \<le> x \<and> x < 2 powi (ilog2 x + 1)"
  using ilog2_bounds_ge1[of x] ilog2_bounds_lt1[of x] by (cases "1 \<le> x") simp_all

lemma pow2_pos: "0 < (2::rat) powi e"
  by (simp add: zero_less_power_int)

lemma pow2_less_imp: "(2::rat) powi a < 2 powi b \<Longrightarrow> a < b"
proof (rule ccontr)
  assume h: "(2::rat) powi a < 2 powi b" and "\<not> a < b"
  hence "b \<le> a" by simp
  hence "(2::rat) powi b \<le> 2 powi a" by (rule power_int_increasing) simp
  with h show False by simp
qed

lemma pow2_split: "(2::rat) powi (a + b) = 2 powi a * 2 powi b"
  by (rule power_int_add) simp

lemma pow2_nat: "0 \<le> e \<Longrightarrow> (2::rat) powi e = of_int (2 ^ nat e)"
  by (simp add: power_int_nonneg_exp)

lemma ilog2_unique:
  assumes "2 powi k \<le> x" "x < 2 powi (k + 1)"
  shows "ilog2 x = k"
proof -
  have xpos: "0 < x" using pow2_pos[of k] assms(1) by (rule less_le_trans)
  note b = ilog2_bounds[OF xpos]
  have "2 powi (ilog2 x) < (2::rat) powi (k + 1)"
    using b assms(2) by (meson order_le_less_trans)
  hence 1: "ilog2 x < k + 1" by (rule pow2_less_imp)
  have "2 powi k < (2::rat) powi (ilog2 x + 1)"
    using b assms(1) by (meson order_le_less_trans)
  hence 2: "k < ilog2 x + 1" by (rule pow2_less_imp)
  from 1 2 show ?thesis by simp
qed

lemma round_even_ge_floor: "\<lfloor>q\<rfloor> \<le> round_even q"
  by (simp add: round_even_def Let_def)

lemma round_even_le_ceiling: "round_even q \<le> \<lceil>q\<rceil>"
proof -
  have "\<lfloor>q\<rfloor> + 1 \<le> \<lceil>q\<rceil>" if "0 < q - of_int \<lfloor>q\<rfloor>"
    using that by linarith
  moreover have "\<lfloor>q\<rfloor> \<le> \<lceil>q\<rceil>" by linarith
  ultimately show ?thesis
    by (simp add: round_even_def Let_def)
qed

lemma round_even_near:
  assumes "\<bar>q - of_int n\<bar> < 1 / 2"
  shows "round_even q = n"
proof -
  consider "of_int n \<le> q" | "q < of_int n" by linarith
  then show ?thesis
  proof cases
    case 1
    hence "\<lfloor>q\<rfloor> = n" using assms by (intro floor_unique) linarith+
    thus ?thesis using assms 1 by (simp add: round_even_def Let_def)
  next
    case 2
    hence "\<lfloor>q\<rfloor> = n - 1" using assms by (intro floor_unique) (simp, linarith)+
    thus ?thesis using assms 2 by (simp add: round_even_def Let_def)
  qed
qed

lemma fl_qexp:
  "fl p qmin x = of_int (round_even (x / 2 powi max qmin (ilog2 x - (int p - 1)))) *
     2 powi max qmin (ilog2 x - (int p - 1))"
  by (simp add: fl_def Let_def)

lemma qexp_le:
  assumes "0 < x" "x \<le> of_int m * 2 powi e" "m < 2 ^ p" "qmin \<le> e"
  shows "max qmin (ilog2 x - (int p - 1)) \<le> e"
proof -
  have "of_int m < (2::rat) ^ p"
    using assms(3) by (metis of_int_less_iff of_int_numeral of_int_power)
  hence "of_int m * 2 powi e < (2::rat) ^ p * 2 powi e"
    using pow2_pos[of e] by (simp add: mult_strict_right_mono)
  also have "\<dots> = 2 powi (int p + e)" by (simp add: pow2_split)
  finally have "x < 2 powi (int p + e)" using assms(2) by simp
  with ilog2_bounds[OF assms(1)] have "2 powi (ilog2 x) < (2::rat) powi (int p + e)"
    by (meson order_le_less_trans)
  hence "ilog2 x < int p + e" by (rule pow2_less_imp)
  thus ?thesis using assms(4) by simp
qed

lemma scaled_int:
  assumes "q \<le> e"
  shows "of_int m * 2 powi e / 2 powi q = rat_of_int (m * 2 ^ nat (e - q))"
proof -
  have "(2::rat) powi e = 2 powi (e - q) * 2 powi q"
    using pow2_split[of "e - q" q] by simp
  moreover have "(2::rat) powi (e - q) = of_int (2 ^ nat (e - q))"
    using assms by (intro pow2_nat) simp
  ultimately show ?thesis using pow2_pos[of q] by simp
qed

text \<open>Rounding never crosses a representable number: from above \<dots>\<close>

lemma fl_le:
  assumes "0 < x" "x \<le> of_int m * 2 powi e" "m < 2 ^ p" "qmin \<le> e"
  shows "fl p qmin x \<le> of_int m * 2 powi e"
proof -
  define q where "q = max qmin (ilog2 x - (int p - 1))"
  have qe: "q \<le> e" unfolding q_def using assms by (rule qexp_le)
  define N where "N = m * 2 ^ nat (e - q)"
  have rN: "of_int m * 2 powi e / 2 powi q = rat_of_int N"
    unfolding N_def using qe by (rule scaled_int)
  have "x / 2 powi q \<le> of_int m * 2 powi e / 2 powi q"
    using assms(2) pow2_pos[of q] by (simp add: divide_right_mono)
  hence "x / 2 powi q \<le> rat_of_int N" unfolding rN .
  hence "\<lceil>x / 2 powi q\<rceil> \<le> N" by (simp add: ceiling_le_iff)
  with round_even_le_ceiling[of "x / 2 powi q"] have "round_even (x / 2 powi q) \<le> N" by simp
  hence "rat_of_int (round_even (x / 2 powi q)) \<le> of_int N" by simp
  hence "of_int (round_even (x / 2 powi q)) * 2 powi q \<le> rat_of_int N * 2 powi q"
    using pow2_pos[of q] by (simp add: mult_right_mono)
  moreover have "rat_of_int N * 2 powi q = of_int m * 2 powi e"
    using rN pow2_pos[of q] by (simp add: field_simps)
  ultimately show ?thesis unfolding fl_qexp q_def[symmetric] by simp
qed

text \<open>\<dots> and from below.\<close>

lemma fl_ge:
  assumes "0 < x" "of_int m * 2 powi e \<le> x" "m < 2 ^ p" "qmin \<le> e" "0 < p"
  shows "of_int m * 2 powi e \<le> fl p qmin x"
proof -
  define q where "q = max qmin (ilog2 x - (int p - 1))"
  have flq: "fl p qmin x = of_int (round_even (x / 2 powi q)) * 2 powi q"
    unfolding q_def by (rule fl_qexp)
  show ?thesis
  proof (cases "q \<le> e")
    case True
    define N where "N = m * 2 ^ nat (e - q)"
    have rN: "of_int m * 2 powi e / 2 powi q = rat_of_int N"
      unfolding N_def using True by (rule scaled_int)
    have "of_int m * 2 powi e / 2 powi q \<le> x / 2 powi q"
      using assms(2) pow2_pos[of q] by (simp add: divide_right_mono)
    hence "rat_of_int N \<le> x / 2 powi q" unfolding rN .
    hence "N \<le> \<lfloor>x / 2 powi q\<rfloor>" by (simp add: le_floor_iff)
    with round_even_ge_floor[of "x / 2 powi q"] have "N \<le> round_even (x / 2 powi q)" by simp
    hence "rat_of_int N \<le> of_int (round_even (x / 2 powi q))" by simp
    hence "rat_of_int N * 2 powi q \<le> of_int (round_even (x / 2 powi q)) * 2 powi q"
      using pow2_pos[of q] by (simp add: mult_right_mono)
    moreover have "rat_of_int N * 2 powi q = of_int m * 2 powi e"
      using rN pow2_pos[of q] by (simp add: field_simps)
    ultimately show ?thesis unfolding flq by simp
  next
    case False
    hence eq: "e < q" by simp
    hence qi: "q = ilog2 x - (int p - 1)"
      using assms(4) by (simp add: q_def max_def split: if_splits)
    have "of_int m < (2::rat) ^ p"
      using assms(3) by (metis of_int_less_iff of_int_numeral of_int_power)
    hence "of_int m * 2 powi e \<le> (2::rat) ^ p * 2 powi e"
      using pow2_pos[of e] by (simp add: mult_right_mono)
    also have "\<dots> = 2 powi (int p + e)" by (simp add: pow2_split)
    also have "\<dots> \<le> 2 powi (ilog2 x)"
      using eq qi by (intro power_int_increasing) simp_all
    finally have r_le: "rat_of_int m * 2 powi e \<le> 2 powi (ilog2 x)" .
    have "(2::rat) powi (ilog2 x) = 2 powi (int p - 1) * 2 powi q"
      using pow2_split[of "int p - 1" q] qi by simp
    moreover have "(2::rat) powi (int p - 1) = of_int (2 ^ nat (int p - 1))"
      using assms(5) by (intro pow2_nat) simp
    ultimately have ix: "(2::rat) powi (ilog2 x) = of_int (2 ^ nat (int p - 1)) * 2 powi q"
      by simp
    have "2 powi (ilog2 x) \<le> x" using ilog2_bounds[OF assms(1)] by simp
    hence "of_int (2 ^ nat (int p - 1)) * 2 powi q \<le> x" unfolding ix .
    hence "rat_of_int (2 ^ nat (int p - 1)) \<le> x / 2 powi q"
      using pow2_pos[of q] by (simp add: pos_le_divide_eq)
    hence "2 ^ nat (int p - 1) \<le> \<lfloor>x / 2 powi q\<rfloor>" by (simp only: le_floor_iff)
    with round_even_ge_floor[of "x / 2 powi q"]
    have "2 ^ nat (int p - 1) \<le> round_even (x / 2 powi q)" by linarith
    hence "rat_of_int (2 ^ nat (int p - 1)) \<le> of_int (round_even (x / 2 powi q))"
      by (simp only: of_int_le_iff)
    hence "rat_of_int (2 ^ nat (int p - 1)) * 2 powi q
        \<le> of_int (round_even (x / 2 powi q)) * 2 powi q"
      using pow2_pos[of q] by (intro mult_right_mono) simp_all
    hence "2 powi (ilog2 x) \<le> fl p qmin x" unfolding ix flq .
    with r_le show ?thesis by (rule order_trans)
  qed
qed

lemma fl_exact:
  assumes "0 < m" "m < 2 ^ p" "qmin \<le> e" "0 < p"
  shows "fl p qmin (of_int m * 2 powi e) = of_int m * 2 powi e"
proof -
  have pos: "0 < rat_of_int m * 2 powi e" using assms(1) pow2_pos[of e] by simp
  have "fl p qmin (of_int m * 2 powi e) \<le> of_int m * 2 powi e"
    using pos _ assms(2,3) by (rule fl_le) simp
  moreover have "of_int m * 2 powi e \<le> fl p qmin (of_int m * 2 powi e)"
    using pos _ assms(2,3,4) by (rule fl_ge) simp
  ultimately show ?thesis by simp
qed

lemma fl_normal:
  assumes "2 powi k \<le> x" "x < 2 powi (k + 1)" "qmin \<le> k - (int p - 1)"
  shows "fl p qmin x =
     of_int (round_even (x / 2 powi (k - (int p - 1)))) * 2 powi (k - (int p - 1))"
  using assms(3) by (simp add: fl_def ilog2_unique[OF assms(1,2)] max_def Let_def)

lemma fl_bounds:
  assumes "0 < x" "2 powi a \<le> x" "x \<le> 2 powi b" "qmin \<le> a" "qmin \<le> b" "0 < p"
  shows "2 powi a \<le> fl p qmin x \<and> fl p qmin x \<le> 2 powi b"
proof -
  have "rat_of_int 1 * 2 powi a \<le> fl p qmin x"
    using assms by (intro fl_ge) simp_all
  moreover have "fl p qmin x \<le> rat_of_int 1 * 2 powi b"
    using assms by (intro fl_le) simp_all
  ultimately show ?thesis by simp
qed

text \<open>
  Evaluating a binary64 rounding from a certificate: the binade \<open>k\<close> of \<open>x\<close> and the
  integer \<open>n\<close> nearest to \<open>x\<close> scaled to that binade.
\<close>

lemma dbl_round_normal:
  assumes "2 powi k \<le> x" "x < 2 powi (k + 1)" "- 1022 \<le> k" "k \<le> 1022"
  shows "dbl_round neg x =
     Fin ((if neg then - 1 else 1) * (of_int (round_even (x / 2 powi (k - 52))) * 2 powi (k - 52)))"
proof -
  have xpos: "0 < x" using pow2_pos[of k] assms(1) by (rule less_le_trans)
  have f: "fl 53 (- 1074) x = of_int (round_even (x / 2 powi (k - 52))) * 2 powi (k - 52)"
    using fl_normal[OF assms(1,2), of "- 1074" 53] assms(3) by simp
  have b: "2 powi k \<le> fl 53 (- 1074) x \<and> fl 53 (- 1074) x \<le> 2 powi (k + 1)"
    using xpos assms by (intro fl_bounds) simp_all
  have "(2::rat) powi (k + 1) < 2 powi 1024"
    using assms(4) by (intro power_int_strict_increasing) simp_all
  hence lt: "\<not> 2 powi 1024 \<le> fl 53 (- 1074) x" using b by linarith
  have nz: "fl 53 (- 1074) x \<noteq> 0" using b pow2_pos[of k] by linarith
  show ?thesis
    using xpos lt nz unfolding dbl_round_def round_mag_def Let_def f[symmetric]
    by simp
qed

lemma dbl_round_cert:
  assumes "2 powi k \<le> x" "x < 2 powi (k + 1)" "- 1022 \<le> k" "k \<le> 1022"
    and "\<bar>x / 2 powi (k - 52) - of_int n\<bar> < 1 / 2"
  shows "dbl_round neg x = Fin ((if neg then - 1 else 1) * (of_int n * 2 powi (k - 52)))"
  using dbl_round_normal[OF assms(1-4), of neg] round_even_near[OF assms(5)] by simp

section \<open>Evaluating the target size\<close>

lemma d_of_int_exact:
  assumes "0 < n" "n < 2 ^ 53"
  shows "d_of_int n = Fin (of_int n)"
proof -
  have f: "fl 53 (- 1074) (of_int n * 2 powi 0) = of_int n * 2 powi 0"
    using assms by (intro fl_exact) simp_all
  have "rat_of_int n < 2 ^ 53" using assms(2) by (metis of_int_less_iff of_int_numeral of_int_power)
  hence "\<not> (2::rat) powi 1024 \<le> of_int n" by simp
  thus ?thesis using assms(1) f
    by (simp add: d_of_int_def dbl_round_def round_mag_def)
qed

lemma fdiv_pos: "0 < a \<Longrightarrow> 0 < b \<Longrightarrow> fdiv rnd (Fin a) (Fin b) = rnd False (a / b)"
  by (simp add: fdiv_def)

lemma fmul_pos: "0 < a \<Longrightarrow> 0 < b \<Longrightarrow> fmul rnd (Fin a) (Fin b) = rnd False (a * b)"
  by (simp add: fmul_def)

lemma to_unsigned_Fin:
  assumes "of_int n \<le> r" "r < of_int n + 1" "0 \<le> n" "n < 2 ^ LENGTH('a)"
  shows "to_unsigned oor (Fin r) = (word_of_int n :: 'a::len word)"
proof -
  have "\<lfloor>r\<rfloor> = n" using assms(1,2) by (intro floor_unique) 
  moreover have "0 \<le> r" using assms(1,3) by (meson of_int_0_le_iff order_trans)
  ultimately show ?thesis using assms(3,4) by (simp add: to_unsigned_def ftrunc_def)
qed

lemma scale_39_1080:
  "fdiv dbl_round (d_of_int 39) (d_of_int 1080) = Fin (2602079784702953 / 72057594037927936)"
  by (simp add: d_of_int_exact fdiv_pos dbl_round_cert[where k="- 5" and n=5204159569405906])

lemma scaled_1920:
  "to_unsigned oor (fmul dbl_round (d_of_int 1920) (Fin (2602079784702953 / 72057594037927936))) = (69 :: 32 word)"
  "to_unsigned oor' (fmul dbl_round (d_of_int 1920) (Fin (2602079784702953 / 72057594037927936))) = (69 :: 64 word)"
  by (simp_all add: d_of_int_exact fmul_pos dbl_round_cert[where k=6 and n=4878899596318037],
      (subst to_unsigned_Fin[where n=69]; simp)+)

lemma scaled_1080:
  "to_unsigned oor (fmul dbl_round (d_of_int 1080) (Fin (2602079784702953 / 72057594037927936))) = (38 :: 32 word)"
  "to_unsigned oor' (fmul dbl_round (d_of_int 1080) (Fin (2602079784702953 / 72057594037927936))) = (38 :: 64 word)"
  by (simp_all add: d_of_int_exact fmul_pos dbl_round_cert[where k=5 and n=5488762045857791],
      (subst to_unsigned_Fin[where n=38]; simp)+)

lemma scale_1_49:
  "fdiv dbl_round (d_of_int 1) (d_of_int 49) = Fin (5882252574524729 / 288230376151711744)"
  by (simp add: d_of_int_exact fdiv_pos dbl_round_cert[where k="- 6" and n=5882252574524729])

lemma scaled_49:
  "to_unsigned oor (fmul dbl_round (d_of_int 49) (Fin (5882252574524729 / 288230376151711744))) = (0 :: 32 word)"
  "to_unsigned oor' (fmul dbl_round (d_of_int 49) (Fin (5882252574524729 / 288230376151711744))) = (0 :: 64 word)"
  by (simp_all add: d_of_int_exact fmul_pos dbl_round_cert[where k="- 1" and n=9007199254740991],
      (subst to_unsigned_Fin[where n=0]; simp)+)

lemma braw_1920_1080_39: "WriteJPEG_dims oor 1920 1080 39 = (70, 38)"
  by (simp add: WriteJPEG_dims_def scale_39_1080 scaled_1920 scaled_1080)

lemma r3d_1920_1080_39: "writeBGRAasJPEG_dims oor 1920 1080 39 = (70, 38)"
  by (simp add: writeBGRAasJPEG_dims_def scale_39_1080 scaled_1920 scaled_1080)

lemma spec_1920_1080_39: "spec_dims 1920 1080 39 = (70, 40)"
  by (simp add: spec_dims_def up_even_def)

lemma braw_49: "WriteJPEG_dims oor 49 49 1 = (0, 0)"
  by (simp add: WriteJPEG_dims_def scale_1_49 scaled_49)

lemma r3d_49: "writeBGRAasJPEG_dims oor 49 49 1 = (0, 0)"
  by (simp add: writeBGRAasJPEG_dims_def scale_1_49 scaled_49)

lemma spec_49: "spec_dims 49 49 1 = (2, 2)"
  by (simp add: spec_dims_def up_even_def)

section \<open>The scaled edge stays below the source edge\<close>

lemma fl_le_grid:
  assumes "0 < x" "x \<le> of_int m * 2 powi e" "m \<le> 2 ^ p" "qmin \<le> e" "0 < p"
  shows "fl p qmin x \<le> of_int m * 2 powi e"
proof (cases "m < 2 ^ p")
  case True
  with assms show ?thesis by (intro fl_le) simp_all
next
  case False
  hence m: "m = 2 ^ p" using assms(3) by simp
  have "(2::int) ^ p = 2 ^ (p - 1) * 2" using assms(5) by (cases p) simp_all
  hence "rat_of_int m = of_int (2 ^ (p - 1)) * 2" unfolding m by simp
  moreover have "(2::rat) powi (e + 1) = 2 * 2 powi e" using pow2_split[of 1 e] by (simp add: add.commute)
  ultimately have eq: "of_int m * 2 powi e = rat_of_int (2 ^ (p - 1)) * 2 powi (e + 1)" by simp
  have "(2::int) ^ (p - 1) < 2 ^ p" using assms(5) by simp
  hence "fl p qmin x \<le> rat_of_int (2 ^ (p - 1)) * 2 powi (e + 1)"
    using assms(1,2,4) unfolding eq by (intro fl_le) simp_all
  thus ?thesis unfolding eq .
qed

text \<open>The least multiple of the spacing \<open>q\<close> that is not below \<open>y\<close>.\<close>

lemma grid_above:
  fixes y q :: rat
  assumes "0 < q"
  shows "y \<le> of_int \<lceil>y / q\<rceil> * q" "of_int \<lceil>y / q\<rceil> * q < y + q"
proof -
  have "y / q \<le> of_int \<lceil>y / q\<rceil>" by linarith
  hence "y / q * q \<le> of_int \<lceil>y / q\<rceil> * q" using assms by (intro mult_right_mono) simp_all
  thus "y \<le> of_int \<lceil>y / q\<rceil> * q" using assms by simp
  have "of_int \<lceil>y / q\<rceil> < y / q + 1" by linarith
  hence "of_int \<lceil>y / q\<rceil> * q < (y / q + 1) * q" using assms by (intro mult_strict_right_mono) simp_all
  thus "of_int \<lceil>y / q\<rceil> * q < y + q" using assms by (simp add: algebra_simps)
qed

lemma fl_le_grid_above:
  assumes "0 < y" "y \<le> 2 powi (k + 1)" "qmin \<le> k - (int p - 1)" "0 < p"
  shows "fl p qmin y < y + 2 powi (k - (int p - 1))"
proof -
  define q :: rat where "q = 2 powi (k - (int p - 1))"
  have qpos: "0 < q" unfolding q_def by (rule pow2_pos)
  have "(2::rat) powi (k + 1) = 2 powi (int p) * q"
    unfolding q_def using pow2_split[of "int p" "k - (int p - 1)"] by (simp add: algebra_simps)
  hence "y / q \<le> 2 powi (int p)" using assms(2) qpos by (simp add: pos_divide_le_eq)
  hence "y / q \<le> rat_of_int (2 ^ p)" by simp
  hence N: "\<lceil>y / q\<rceil> \<le> 2 ^ p" by (simp only: ceiling_le_iff)
  have "fl p qmin y \<le> of_int \<lceil>y / q\<rceil> * q"
    unfolding q_def using assms(1) grid_above(1)[OF qpos, of y, unfolded q_def] N[unfolded q_def] assms(3,4)
    by (rule fl_le_grid)
  also have "\<dots> < y + q" using qpos by (rule grid_above(2))
  finally show ?thesis unfolding q_def .
qed

lemma pow2_mono: "a \<le> b \<Longrightarrow> (2::rat) powi a \<le> 2 powi b"
  by (rule power_int_increasing) simp_all

lemma pow2_strict_mono: "a < b \<Longrightarrow> (2::rat) powi a < 2 powi b"
  by (rule power_int_strict_increasing) simp_all

lemma ilog2_of_int_nonneg:
  assumes "1 \<le> s"
  shows "0 \<le> ilog2 (rat_of_int s)"
proof -
  have "(2::rat) powi 0 \<le> of_int s" using assms by simp
  moreover have "of_int s < (2::rat) powi (ilog2 (of_int s) + 1)"
    using ilog2_bounds[of "rat_of_int s"] assms by simp
  ultimately have "(2::rat) powi 0 < 2 powi (ilog2 (of_int s) + 1)" by (rule le_less_trans)
  hence "0 < ilog2 (rat_of_int s) + 1" by (rule pow2_less_imp)
  thus ?thesis by simp
qed

lemma scaled_below:
  assumes "1 \<le> s" "0 < c" "c \<le> 1 - 2 powi (- 32)"
  shows "fl 53 (- 1074) (fl 53 (- 1074) (of_int s) * c) < of_int s"
proof -
  define k where "k = ilog2 (rat_of_int s)"
  define q :: rat where "q = 2 powi (k - 52)"
  define s' where "s' = fl 53 (- 1074) (of_int s)"
  have spos: "0 < rat_of_int s" using assms(1) by simp
  have kb: "2 powi k \<le> rat_of_int s" "rat_of_int s < 2 powi (k + 1)"
    using ilog2_bounds[OF spos] by (simp_all add: k_def)
  have k0: "0 \<le> k" unfolding k_def using assms(1) by (rule ilog2_of_int_nonneg)
  have qpos: "0 < q" unfolding q_def by (rule pow2_pos)
  have s'_hi: "s' < of_int s + q"
    using fl_le_grid_above[of "rat_of_int s" k "- 1074" 53] spos kb(2) k0
    by (simp add: s'_def q_def)
  have s'_lo: "2 powi k \<le> s'"
    using fl_ge[of "rat_of_int s" 1 k 53 "- 1074"] spos kb(1) k0 by (simp add: s'_def)
  have s'pos: "0 < s'" using pow2_pos[of k] s'_lo by (rule less_le_trans)
  define t :: rat where "t = 2 powi (- 32)"
  have tpos: "0 < t" unfolding t_def by (rule pow2_pos)
  have t1: "t < 1" unfolding t_def using pow2_strict_mono[of "- 32" 0] by simp
  have kt: "2 powi (k - 32) = 2 powi k * t"
    unfolding t_def using pow2_split[of k "- 32"] by simp
  have q4: "4 * q \<le> 2 powi (k - 32)"
  proof -
    have "(2::rat) powi (k - 50) = 2 powi 2 * 2 powi (k - 52)"
      using pow2_split[of 2 "k - 52"] by simp
    hence "4 * q = 2 powi (k - 50)" by (simp add: q_def)
    also have "\<dots> \<le> 2 powi (k - 32)" by (rule pow2_mono) simp
    finally show ?thesis .
  qed
  have st: "2 powi (k - 32) \<le> of_int s * t"
    unfolding kt using kb(1) tpos by (intro mult_right_mono) simp_all
  define y where "y = s' * c"
  have ypos: "0 < y" unfolding y_def using s'pos assms(2) by simp
  have "y \<le> s' * (1 - t)"
    unfolding y_def t_def using assms(3) s'pos by (intro mult_left_mono) simp_all
  also have "\<dots> < (of_int s + q) * (1 - t)"
    using s'_hi t1 by (intro mult_strict_right_mono) simp_all
  also have "\<dots> = of_int s + q - of_int s * t - q * t" by (simp add: algebra_simps)
  also have "\<dots> \<le> of_int s + q - 2 powi (k - 32)"
  proof -
    have "0 < q * t" using qpos tpos by simp
    with st show ?thesis by linarith
  qed
  finally have y_hi: "y < of_int s + q - 2 powi (k - 32)" .
  hence "y < of_int s" using q4 qpos by linarith
  hence "y \<le> 2 powi (k + 1)" using kb(2) by linarith
  hence "fl 53 (- 1074) y < y + q"
    using fl_le_grid_above[of y k "- 1074" 53] ypos k0 by (simp add: q_def)
  hence "fl 53 (- 1074) y < of_int s" using y_hi q4 qpos by linarith
  thus ?thesis unfolding y_def s'_def .
qed

section \<open>Words: rounding up to even, signed reading\<close>

lemma bit_m2_int: "bit (- 2 :: int) n \<longleftrightarrow> n \<noteq> 0"
proof -
  have "bit (NOT 1 :: int) n \<longleftrightarrow> n \<noteq> 0" by (simp add: bit_not_iff bit_1_iff)
  thus ?thesis by simp
qed

lemma bit_half_int: "0 < n \<Longrightarrow> bit ((k::int) div 2) (n - Suc 0) = bit k n"
  by (cases n) (simp_all add: bit_Suc)

lemma int_and_m2: "(k::int) AND - 2 = 2 * (k div 2)"
  by (rule bit_eqI) (auto simp add: bit_and_iff bit_m2_int bit_double_iff bit_half_int)

lemma uint_clear_bit0: "uint ((w::'a::len word) AND - 2) = 2 * (uint w div 2)"
proof -
  have "(- 2 :: 'a word) = word_of_int (- 2)" by simp
  hence "uint (- 2 :: 'a word) = take_bit LENGTH('a) (- 2 :: int)"
    by (simp only: uint_word_of_int_eq)
  hence "uint (w AND - 2) = uint w AND take_bit LENGTH('a) (- 2 :: int)"
    by (simp only: uint_and)
  also have "\<dots> = take_bit LENGTH('a) (uint w AND - 2)"
    by (simp add: take_bit_and take_bit_int_eq_self uint_lt2p)
  also have "\<dots> = take_bit LENGTH('a) (2 * (uint w div 2))"
    by (simp only: int_and_m2)
  also have "\<dots> = 2 * (uint w div 2)"
  proof (rule take_bit_int_eq_self)
    show "0 \<le> 2 * (uint w div 2)" using uint_ge_0[of w] by simp
    have "2 * (uint w div 2) \<le> uint w" by presburger
    thus "2 * (uint w div 2) < 2 ^ LENGTH('a)" using uint_lt2p[of w] by linarith
  qed
  finally show ?thesis .
qed

lemma uint_round_up_even:
  assumes "0 \<le> t" "t + 1 < 2 ^ LENGTH('a)"
  shows "uint (((word_of_int t :: 'a::len word) + 1) AND NOT 1) = (if even t then t else t + 1)"
proof -
  have "(word_of_int t :: 'a word) + 1 = word_of_int (t + 1)" by simp
  moreover have "uint (word_of_int (t + 1) :: 'a word) = t + 1"
    using assms by (simp only: uint_word_of_int_eq) (simp add: take_bit_int_eq_self)
  ultimately have "uint (((word_of_int t :: 'a word) + 1) AND - 2) = 2 * ((t + 1) div 2)"
    by (simp only: uint_clear_bit0)
  also have "\<dots> = (if even t then t else t + 1)" by presburger
  finally show ?thesis by simp
qed

lemma sint_cases:
  "sint (w::'a::len word) =
     (if uint w < 2 ^ (LENGTH('a) - 1) then uint w else uint w - 2 ^ LENGTH('a))"
proof -
  define n where "n = LENGTH('a) - 1"
  have N: "LENGTH('a) = Suc n" by (simp add: n_def)
  have p: "(2::int) ^ LENGTH('a) = 2 * 2 ^ n" by (simp add: N)
  have s: "sint w = (uint w + 2 ^ n) mod 2 ^ LENGTH('a) - 2 ^ n"
    unfolding sint_uint using signed_take_bit_eq_take_bit_shift[of n "uint w"]
    by (simp add: N take_bit_eq_mod)
  have u: "0 \<le> uint w" "uint w < 2 * 2 ^ n" using uint_lt2p[of w] by (simp_all add: p)
  show ?thesis
  proof (cases "uint w < 2 ^ n")
    case True
    hence "(uint w + 2 ^ n) mod 2 ^ LENGTH('a) = uint w + 2 ^ n"
      using u by (intro mod_pos_pos_trivial) (simp_all add: p)
    thus ?thesis using True s by (simp add: n_def)
  next
    case False
    hence "(uint w + 2 ^ n - 2 ^ LENGTH('a)) mod 2 ^ LENGTH('a) = uint w + 2 ^ n - 2 ^ LENGTH('a)"
      using u by (intro mod_pos_pos_trivial) (simp_all add: p)
    hence "(uint w + 2 ^ n) mod 2 ^ LENGTH('a) = uint w + 2 ^ n - 2 ^ LENGTH('a)"
      by (simp only: minus_mod_self2)
    thus ?thesis using False s by (simp add: n_def p)
  qed
qed

lemma sint_pos_uint:
  assumes "0 < sint (w::'a::len word)"
  shows "sint w = uint w" "uint w < 2 ^ (LENGTH('a) - 1)"
proof -
  have c: "uint w < 2 ^ (LENGTH('a) - 1)"
  proof (rule ccontr)
    assume "\<not> uint w < 2 ^ (LENGTH('a) - 1)"
    hence "sint w = uint w - 2 ^ LENGTH('a)" by (simp only: sint_cases if_False)
    thus False using uint_lt2p[of w] assms by linarith
  qed
  show "uint w < 2 ^ (LENGTH('a) - 1)" by (rule c)
  show "sint w = uint w" using c by (simp add: sint_cases)
qed

section \<open>The resize branch of both tools\<close>

lemma d_of_int_pos:
  assumes "1 \<le> s" "s \<le> 2 ^ 64"
  shows "d_of_int s = Fin (fl 53 (- 1074) (of_int s))"
    and "1 \<le> fl 53 (- 1074) (rat_of_int s)"
    and "fl 53 (- 1074) (rat_of_int s) \<le> 2 ^ 64"
proof -
  have spos: "0 < rat_of_int s" using assms(1) by simp
  have "rat_of_int s \<le> of_int (2 ^ 64)" using assms(2) by (simp only: of_int_le_iff)
  hence hi: "rat_of_int s \<le> 2 powi 64" by simp
  have lo: "2 powi 0 \<le> rat_of_int s" using assms(1) by simp
  have b: "2 powi 0 \<le> fl 53 (- 1074) (rat_of_int s) \<and> fl 53 (- 1074) (rat_of_int s) \<le> 2 powi 64"
    using spos lo hi by (intro fl_bounds) simp_all
  show 1: "1 \<le> fl 53 (- 1074) (rat_of_int s)" using b by simp
  show 2: "fl 53 (- 1074) (rat_of_int s) \<le> 2 ^ 64" using b by simp
  have "(2::rat) ^ 64 < 2 powi 1024" using pow2_strict_mono[of 64 1024] by simp
  hence "\<not> 2 powi 1024 \<le> fl 53 (- 1074) (rat_of_int s)" using 2 by linarith
  thus "d_of_int s = Fin (fl 53 (- 1074) (of_int s))"
    using assms(1) 1 by (simp add: d_of_int_def dbl_round_def round_mag_def)
qed

lemma dbl_round_Fin:
  assumes "0 < x" "2 powi a \<le> x" "x \<le> 2 powi b" "- 1074 \<le> a" "a \<le> b" "b < 1024"
  shows "dbl_round False x = Fin (fl 53 (- 1074) x)"
proof -
  have b: "2 powi a \<le> fl 53 (- 1074) x \<and> fl 53 (- 1074) x \<le> 2 powi b"
    using assms by (intro fl_bounds) simp_all
  have "(2::rat) powi b < 2 powi 1024" using assms(6) by (rule pow2_strict_mono)
  hence "\<not> 2 powi 1024 \<le> fl 53 (- 1074) x" using b by linarith
  moreover have "fl 53 (- 1074) x \<noteq> 0" using b pow2_pos[of a] by linarith
  moreover have "x \<noteq> 0" using assms(1) by simp
  ultimately show ?thesis unfolding dbl_round_def round_mag_def Let_def by (simp only: if_False)
qed

lemma scale_factor:
  assumes "1 \<le> m" "m < 2 ^ 31" "m < e" "e < 2 ^ 64"
  shows "\<exists>c. fdiv dbl_round (d_of_int m) (d_of_int e) = Fin c \<and> 0 < c \<and> c \<le> 1 - 2 powi (- 32)"
proof -
  define e' where "e' = fl 53 (- 1074) (rat_of_int e)"
  have e1: "1 \<le> e" using assms(1,3) by simp
  have de: "d_of_int e = Fin e'" and e'1: "1 \<le> e'" and e'64: "e' \<le> 2 ^ 64"
    unfolding e'_def using d_of_int_pos[of e] e1 assms(4) by simp_all
  have dm: "d_of_int m = Fin (of_int m)"
    using assms(1,2) by (intro d_of_int_exact) simp_all
  define x where "x = rat_of_int m / e'"
  have mpos: "0 < rat_of_int m" using assms(1) by simp
  have xpos: "0 < x" unfolding x_def using mpos e'1 by simp
  have fd: "fdiv dbl_round (d_of_int m) (d_of_int e) = dbl_round False x"
    unfolding dm de x_def using mpos e'1 by (intro fdiv_pos) simp_all
  have p32: "(2::rat) powi (- 32) = 1 / 2 ^ 32" using pow2_neg[of 32] by simp
  have p64: "(2::rat) powi (- 64) = 1 / 2 ^ 64" using pow2_neg[of 64] by simp
  have x_hi: "x \<le> 1 - 2 powi (- 32)"
  proof (cases "e \<le> 2 ^ 32")
    case True
    have "e < 2 ^ 53" using True by simp
    hence "fl 53 (- 1074) (rat_of_int e * 2 powi 0) = rat_of_int e * 2 powi 0"
      using e1 by (intro fl_exact) simp_all
    hence ee: "e' = rat_of_int e" by (simp add: e'_def)
    have "m \<le> e - 1" using assms(3) by simp
    hence "rat_of_int m \<le> rat_of_int (e - 1)" by (simp only: of_int_le_iff)
    hence "rat_of_int m \<le> rat_of_int e - 1" by simp
    hence "x \<le> (rat_of_int e - 1) / rat_of_int e"
      unfolding x_def ee using e1 by (intro divide_right_mono) simp_all
    also have "\<dots> = 1 - 1 / rat_of_int e" using e1 by (simp add: field_simps)
    also have "\<dots> \<le> 1 - 1 / 2 ^ 32"
    proof -
      have "rat_of_int e \<le> of_int (2 ^ 32)" using True by (simp only: of_int_le_iff)
      hence "rat_of_int e \<le> 2 ^ 32" by simp
      hence "1 / 2 ^ 32 \<le> 1 / rat_of_int e" using e1 by (intro divide_left_mono) simp_all
      thus ?thesis by simp
    qed
    finally show ?thesis unfolding p32 .
  next
    case False
    hence "2 ^ 32 \<le> e" by simp
    hence "rat_of_int (2 ^ 32) \<le> of_int e" by (simp only: of_int_le_iff)
    hence "rat_of_int 1 * 2 powi 32 \<le> of_int e" by simp
    hence "rat_of_int 1 * 2 powi 32 \<le> e'"
      unfolding e'_def using e1 by (intro fl_ge) simp_all
    hence e'32: "2 ^ 32 \<le> e'" by simp
    have "m \<le> 2 ^ 31" using assms(2) by simp
    hence "rat_of_int m \<le> of_int (2 ^ 31)" by (simp only: of_int_le_iff)
    hence m31: "rat_of_int m \<le> 2 ^ 31" by simp
    have "x \<le> 2 ^ 31 / e'" unfolding x_def using m31 e'1 by (intro divide_right_mono) simp_all
    also have "\<dots> \<le> 2 ^ 31 / 2 ^ 32" using e'32 by (intro divide_left_mono) simp_all
    also have "\<dots> \<le> (1::rat) - 1 / 2 ^ 32" by simp
    finally show ?thesis unfolding p32 .
  qed
  have x_lo: "2 powi (- 64) \<le> x"
  proof -
    have "1 / 2 ^ 64 \<le> 1 / e'" using e'64 e'1 by (intro divide_left_mono) simp_all
    also have "\<dots> \<le> x" unfolding x_def using assms(1) e'1 by (intro divide_right_mono) simp_all
    finally show ?thesis unfolding p64 .
  qed
  have "(1::rat) - 2 powi (- 32) \<le> 2 powi 0" using pow2_pos[of "- 32"] by simp
  hence x0: "x \<le> 2 powi 0" using x_hi by linarith
  have r: "dbl_round False x = Fin (fl 53 (- 1074) x)"
    using xpos x_lo x0 by (rule dbl_round_Fin) simp_all
  have "rat_of_int 1 * 2 powi (- 64) \<le> fl 53 (- 1074) x"
    using xpos x_lo by (intro fl_ge) simp_all
  hence c_pos: "0 < fl 53 (- 1074) x" using pow2_pos[of "- 64"] by simp
  have g: "(1::rat) - 2 powi (- 32) = rat_of_int (2 ^ 32 - 1) * 2 powi (- 32)"
    unfolding p32 by simp
  have "fl 53 (- 1074) x \<le> rat_of_int (2 ^ 32 - 1) * 2 powi (- 32)"
    using xpos x_hi[unfolded g] by (rule fl_le) simp_all
  hence c_hi: "fl 53 (- 1074) x \<le> 1 - 2 powi (- 32)" unfolding g .
  show ?thesis using fd r c_pos c_hi by simp
qed

lemma scaled_edge:
  assumes "1 \<le> s" "s < 2 ^ 64" "0 < c" "c \<le> 1 - 2 powi (- 32)"
  shows "\<exists>X. fmul dbl_round (d_of_int s) (Fin c) = Fin X \<and> 0 \<le> X \<and> X < of_int s"
proof -
  define s' where "s' = fl 53 (- 1074) (rat_of_int s)"
  have ds: "d_of_int s = Fin s'" and s'1: "1 \<le> s'"
    unfolding s'_def using d_of_int_pos[of s] assms(1,2) by simp_all
  have fm: "fmul dbl_round (d_of_int s) (Fin c) = dbl_round False (s' * c)"
    unfolding ds using s'1 assms(3) by (intro fmul_pos) simp_all
  have below: "fl 53 (- 1074) (s' * c) < of_int s"
    unfolding s'_def using assms(1,3,4) by (rule scaled_below)
  have xpos: "0 < s' * c" using s'1 assms(3) by simp
  hence xne: "s' * c \<noteq> 0" by (rule less_imp_neq[THEN not_sym])
  have "rat_of_int s < of_int (2 ^ 64)" using assms(2) by (simp only: of_int_less_iff)
  hence s64: "rat_of_int s < 2 powi 64" by simp
  have "(2::rat) powi 64 < 2 powi 1024" by (rule pow2_strict_mono) simp
  hence no_ovf: "\<not> 2 powi 1024 \<le> fl 53 (- 1074) (s' * c)" using below s64 by linarith
  have nonneg: "0 \<le> fl 53 (- 1074) (s' * c)"
  proof -
    have "0 \<le> s' * c / 2 powi max (- 1074) (ilog2 (s' * c) - (int 53 - 1))"
      using xpos pow2_pos by (intro divide_nonneg_pos) simp_all
    hence "0 \<le> round_even (s' * c / 2 powi max (- 1074) (ilog2 (s' * c) - (int 53 - 1)))"
      using round_even_ge_floor[of "s' * c / 2 powi max (- 1074) (ilog2 (s' * c) - (int 53 - 1))"]
      by linarith
    thus ?thesis unfolding fl_qexp using pow2_pos by (intro mult_nonneg_nonneg) simp_all
  qed
  show ?thesis
  proof (cases "fl 53 (- 1074) (s' * c) = 0")
    case True
    hence "dbl_round False (s' * c) = Fin 0"
      using xne no_ovf unfolding dbl_round_def round_mag_def Let_def fzero_def
      by (simp only: if_False if_cancel)
    thus ?thesis using fm assms(1) by simp
  next
    case False
    hence "dbl_round False (s' * c) = Fin (fl 53 (- 1074) (s' * c))"
      using xne no_ovf unfolding dbl_round_def round_mag_def Let_def
      by (simp only: if_False)
    thus ?thesis using fm below nonneg by simp
  qed
qed

lemma to_unsigned_below:
  assumes "0 \<le> X" "X < of_int s" "s \<le> 2 ^ LENGTH('a)"
  shows "\<exists>t. to_unsigned oor (Fin X) = (word_of_int t :: 'a::len word) \<and> 0 \<le> t \<and> t < s"
proof -
  have t0: "0 \<le> \<lfloor>X\<rfloor>" using assms(1) by simp
  have ts: "\<lfloor>X\<rfloor> < s" using assms(2) by (simp add: floor_less_iff)
  hence "\<lfloor>X\<rfloor> < 2 ^ LENGTH('a)" using assms(3) by linarith
  hence "to_unsigned oor (Fin X) = (word_of_int \<lfloor>X\<rfloor> :: 'a word)"
    using assms(1) t0 by (simp add: to_unsigned_def ftrunc_def)
  thus ?thesis using t0 ts by blast
qed

text \<open>One edge of the resized image: below the source edge before the rounding to even.\<close>

lemma resized_edge:
  assumes "1 \<le> m" "m < 2 ^ 31" "m < e" "e \<le> s" "s < 2 ^ LENGTH('a)" "LENGTH('a) \<le> 64"
    and "e < 2 ^ 64"
  shows "\<exists>t. to_unsigned oor (fmul dbl_round (d_of_int s)
            (fdiv dbl_round (d_of_int m) (d_of_int e))) = (word_of_int t :: 'a::len word)
          \<and> 0 \<le> t \<and> t < s"
proof -
  obtain c where c: "fdiv dbl_round (d_of_int m) (d_of_int e) = Fin c" "0 < c"
      "c \<le> 1 - 2 powi (- 32)"
    using scale_factor[OF assms(1,2,3,7)] by blast
  have "(2::int) ^ LENGTH('a) \<le> 2 ^ 64" using assms(6) by (intro power_increasing) simp_all
  hence s64: "s < 2 ^ 64" using assms(5) by linarith
  have s1: "1 \<le> s" using assms(1,3,4) by linarith
  obtain X where X: "fmul dbl_round (d_of_int s) (Fin c) = Fin X" "0 \<le> X" "X < of_int s"
    using scaled_edge[OF s1 s64 c(2,3)] by blast
  show ?thesis unfolding c(1) X(1) using X(2,3) assms(5) by (intro to_unsigned_below) simp_all
qed

lemma resized_value:
  assumes "1 \<le> m" "m < 2 ^ 31" "m < e" "e \<le> s" "s < 2 ^ 64"
  shows "\<exists>X. fmul dbl_round (d_of_int s) (fdiv dbl_round (d_of_int m) (d_of_int e)) = Fin X
          \<and> 0 \<le> X \<and> X < of_int s"
proof -
  have e64: "e < 2 ^ 64" using assms(4,5) by linarith
  obtain c where c: "fdiv dbl_round (d_of_int m) (d_of_int e) = Fin c" "0 < c"
      "c \<le> 1 - 2 powi (- 32)"
    using scale_factor[OF assms(1,2,3) e64] by blast
  have s1: "1 \<le> s" using assms(1,3,4) by linarith
  show ?thesis unfolding c(1) using scaled_edge[OF s1 assms(5) c(2,3)] .
qed

lemma to_unsigned_floor:
  assumes "0 \<le> X" "X < of_int s" "s \<le> 2 ^ LENGTH('a)"
  shows "to_unsigned oor (Fin X) = (word_of_int \<lfloor>X\<rfloor> :: 'a::len word)"
    and "0 \<le> \<lfloor>X\<rfloor>" and "\<lfloor>X\<rfloor> + 1 \<le> s"
proof -
  show t0: "0 \<le> \<lfloor>X\<rfloor>" using assms(1) by simp
  have ts: "\<lfloor>X\<rfloor> < s" using assms(2) by (simp add: floor_less_iff)
  thus "\<lfloor>X\<rfloor> + 1 \<le> s" by simp
  have "\<lfloor>X\<rfloor> < 2 ^ LENGTH('a)" using ts assms(3) by linarith
  thus "to_unsigned oor (Fin X) = (word_of_int \<lfloor>X\<rfloor> :: 'a word)"
    using assms(1) t0 by (simp add: to_unsigned_def ftrunc_def)
qed

text \<open>The edge the tools store: the floor of the scaled edge, rounded up to even.\<close>

lemma stored_edge:
  assumes "0 \<le> X" "X < of_int s" "s < 2 ^ LENGTH('a)"
  shows "uint (((to_unsigned oor (Fin X) :: 'a::len word) + 1) AND NOT 1)
       = (if even \<lfloor>X\<rfloor> then \<lfloor>X\<rfloor> else \<lfloor>X\<rfloor> + 1)"
proof -
  have s: "s \<le> 2 ^ LENGTH('a)" using assms(3) by simp
  note f = to_unsigned_floor[OF assms(1,2) s]
  have "\<lfloor>X\<rfloor> + 1 < 2 ^ LENGTH('a)" using f(3) assms(3) by linarith
  thus ?thesis unfolding f(1)[of oor] using f(2) by (intro uint_round_up_even) simp_all
qed

lemma braw_resize_branch:
  assumes "0 < sint maxDim" "maxDim < (if srcW < srcH then srcW else srcH)"
  shows "\<exists>X Y. WriteJPEG_dims oor srcW srcH maxDim =
            ((to_unsigned oor (Fin X) + 1) AND NOT 1, (to_unsigned oor (Fin Y) + 1) AND NOT 1)
          \<and> fmul dbl_round (d_of_int (uint srcW))
               (fdiv dbl_round (d_of_int (sint maxDim))
                 (d_of_int (uint (if srcW < srcH then srcW else srcH)))) = Fin X
          \<and> fmul dbl_round (d_of_int (uint srcH))
               (fdiv dbl_round (d_of_int (sint maxDim))
                 (d_of_int (uint (if srcW < srcH then srcW else srcH)))) = Fin Y
          \<and> 0 \<le> X \<and> X < of_int (uint srcW) \<and> 0 \<le> Y \<and> Y < of_int (uint srcH)"
proof -
  define e where "e = (if srcW < srcH then srcW else srcH)"
  note m = sint_pos_uint[OF assms(1)]
  have m1: "1 \<le> sint maxDim" using assms(1) by simp
  have m31: "sint maxDim < 2 ^ 31" using m by simp
  have me: "sint maxDim < uint e" using assms(2) m(1) by (simp add: e_def word_less_def)
  have eW: "uint e \<le> uint srcW" by (simp add: e_def word_less_def word_le_def)
  have eH: "uint e \<le> uint srcH" by (simp add: e_def word_less_def word_le_def)
  have W64: "uint srcW < 2 ^ 64" using uint_lt2p[of srcW] by simp
  have H64: "uint srcH < 2 ^ 64" using uint_lt2p[of srcH] by simp
  obtain X where X: "fmul dbl_round (d_of_int (uint srcW))
      (fdiv dbl_round (d_of_int (sint maxDim)) (d_of_int (uint e))) = Fin X"
      "0 \<le> X" "X < of_int (uint srcW)"
    using resized_value[OF m1 m31 me eW W64] by blast
  obtain Y where Y: "fmul dbl_round (d_of_int (uint srcH))
      (fdiv dbl_round (d_of_int (sint maxDim)) (d_of_int (uint e))) = Fin Y"
      "0 \<le> Y" "Y < of_int (uint srcH)"
    using resized_value[OF m1 m31 me eH H64] by blast
  have "WriteJPEG_dims oor srcW srcH maxDim =
      ((to_unsigned oor (Fin X) + 1) AND NOT 1, (to_unsigned oor (Fin Y) + 1) AND NOT 1)"
    using assms X(1) Y(1) unfolding e_def WriteJPEG_dims_def Let_def
    by (simp only: if_True)
  thus ?thesis using X Y unfolding e_def by blast
qed

lemma stored_edge_facts:
  assumes "0 \<le> X" "X < of_int (uint s)"
  shows "uint (((to_unsigned oor (Fin X) :: 'a::len word) + 1) AND NOT 1) \<le> uint (s::'a word)"
    and "even (uint (((to_unsigned oor (Fin X) :: 'a::len word) + 1) AND NOT 1))"
proof -
  have lt: "uint s < 2 ^ LENGTH('a)" by (rule uint_lt2p)
  note e = stored_edge[OF assms lt, of oor]
  have "\<lfloor>X\<rfloor> < uint s" using assms(2) by (simp add: floor_less_iff)
  thus "uint (((to_unsigned oor (Fin X) :: 'a word) + 1) AND NOT 1) \<le> uint s"
    unfolding e by simp
  show "even (uint (((to_unsigned oor (Fin X) :: 'a word) + 1) AND NOT 1))"
    unfolding e by simp
qed

lemma braw_never_enlarges:
  "uint (fst (WriteJPEG_dims oor srcW srcH maxDim)) \<le> uint srcW
   \<and> uint (snd (WriteJPEG_dims oor srcW srcH maxDim)) \<le> uint srcH
   \<and> (WriteJPEG_dims oor srcW srcH maxDim = (srcW, srcH)
      \<or> even (uint (fst (WriteJPEG_dims oor srcW srcH maxDim)))
        \<and> even (uint (snd (WriteJPEG_dims oor srcW srcH maxDim))))"
proof (cases "0 < sint maxDim \<and> maxDim < (if srcW < srcH then srcW else srcH)")
  case True
  then obtain X Y where d: "WriteJPEG_dims oor srcW srcH maxDim =
        ((to_unsigned oor (Fin X) + 1) AND NOT 1, (to_unsigned oor (Fin Y) + 1) AND NOT 1)"
      and X: "0 \<le> X" "X < of_int (uint srcW)" and Y: "0 \<le> Y" "Y < of_int (uint srcH)"
    using braw_resize_branch[of maxDim srcW srcH oor] by blast
  show ?thesis
    unfolding d fst_conv snd_conv
    using stored_edge_facts[OF X, of oor] stored_edge_facts[OF Y, of oor] by blast
next
  case False
  hence "WriteJPEG_dims oor srcW srcH maxDim = (srcW, srcH)"
    by (auto simp add: WriteJPEG_dims_def Let_def)
  thus ?thesis by simp
qed

lemma r3d_guard:
  assumes "0 < sint (maxDim :: 32 word)" "sint maxDim < sint (ucast (e :: 64 word) :: 32 word)"
  shows "sint maxDim < uint e"
proof -
  have "0 < sint (ucast e :: 32 word)" using assms by linarith
  hence "sint (ucast e :: 32 word) = uint (ucast e :: 32 word)" by (rule sint_pos_uint)
  moreover have "uint (ucast e :: 32 word) \<le> uint e"
    unfolding ucast_eq uint_word_of_int_eq take_bit_eq_mod
    by (rule zmod_le_nonneg_dividend) simp
  ultimately show ?thesis using assms(2) by linarith
qed

lemma r3d_resize_branch:
  assumes "0 < sint maxDim"
    and "sint maxDim < sint (ucast (if width < height then width else height) :: 32 word)"
  shows "\<exists>X Y. writeBGRAasJPEG_dims oor width height maxDim =
            ((to_unsigned oor (Fin X) + 1) AND NOT 1, (to_unsigned oor (Fin Y) + 1) AND NOT 1)
          \<and> fmul dbl_round (d_of_int (uint width))
               (fdiv dbl_round (d_of_int (sint maxDim))
                 (d_of_int (uint (if width < height then width else height)))) = Fin X
          \<and> fmul dbl_round (d_of_int (uint height))
               (fdiv dbl_round (d_of_int (sint maxDim))
                 (d_of_int (uint (if width < height then width else height)))) = Fin Y
          \<and> 0 \<le> X \<and> X < of_int (uint width) \<and> 0 \<le> Y \<and> Y < of_int (uint height)"
proof -
  define e where "e = (if width < height then width else height)"
  note m = sint_pos_uint[OF assms(1)]
  have m1: "1 \<le> sint maxDim" using assms(1) by simp
  have m31: "sint maxDim < 2 ^ 31" using m by simp
  have me: "sint maxDim < uint e" using assms unfolding e_def[symmetric] by (rule r3d_guard)
  have eW: "uint e \<le> uint width" by (simp add: e_def word_less_def word_le_def)
  have eH: "uint e \<le> uint height" by (simp add: e_def word_less_def word_le_def)
  have W64: "uint width < 2 ^ 64" using uint_lt2p[of width] by simp
  have H64: "uint height < 2 ^ 64" using uint_lt2p[of height] by simp
  obtain X where X: "fmul dbl_round (d_of_int (uint width))
      (fdiv dbl_round (d_of_int (sint maxDim)) (d_of_int (uint e))) = Fin X"
      "0 \<le> X" "X < of_int (uint width)"
    using resized_value[OF m1 m31 me eW W64] by blast
  obtain Y where Y: "fmul dbl_round (d_of_int (uint height))
      (fdiv dbl_round (d_of_int (sint maxDim)) (d_of_int (uint e))) = Fin Y"
      "0 \<le> Y" "Y < of_int (uint height)"
    using resized_value[OF m1 m31 me eH H64] by blast
  have "writeBGRAasJPEG_dims oor width height maxDim =
      ((to_unsigned oor (Fin X) + 1) AND NOT 1, (to_unsigned oor (Fin Y) + 1) AND NOT 1)"
    using assms X(1) Y(1) unfolding e_def writeBGRAasJPEG_dims_def Let_def
    by (simp only: if_True)
  thus ?thesis using X Y unfolding e_def by blast
qed

lemma r3d_never_enlarges:
  "uint (fst (writeBGRAasJPEG_dims oor width height maxDim)) \<le> uint width
   \<and> uint (snd (writeBGRAasJPEG_dims oor width height maxDim)) \<le> uint height
   \<and> (writeBGRAasJPEG_dims oor width height maxDim = (width, height)
      \<or> even (uint (fst (writeBGRAasJPEG_dims oor width height maxDim)))
        \<and> even (uint (snd (writeBGRAasJPEG_dims oor width height maxDim))))"
proof (cases "0 < sint maxDim
    \<and> sint maxDim < sint (ucast (if width < height then width else height) :: 32 word)")
  case True
  then obtain X Y where d: "writeBGRAasJPEG_dims oor width height maxDim =
        ((to_unsigned oor (Fin X) + 1) AND NOT 1, (to_unsigned oor (Fin Y) + 1) AND NOT 1)"
      and X: "0 \<le> X" "X < of_int (uint width)" and Y: "0 \<le> Y" "Y < of_int (uint height)"
    using r3d_resize_branch[of maxDim width height oor] by blast
  show ?thesis
    unfolding d fst_conv snd_conv
    using stored_edge_facts[OF X, of oor] stored_edge_facts[OF Y, of oor] by blast
next
  case False
  hence "writeBGRAasJPEG_dims oor width height maxDim = (width, height)"
    by (auto simp add: writeBGRAasJPEG_dims_def Let_def)
  thus ?thesis by simp
qed

lemma scale_1_2p31:
  "fdiv dbl_round (d_of_int 1) (d_of_int 2147483648) = Fin (1 / 2147483648)"
  by (simp add: d_of_int_exact fdiv_pos dbl_round_cert[where k="- 31" and n=4503599627370496])

lemma scaled_2p31:
  "to_unsigned oor (fmul dbl_round (d_of_int 2147483648) (Fin (1 / 2147483648))) = (1 :: 32 word)"
  by (simp add: d_of_int_exact fmul_pos dbl_round_cert[where k=0 and n=4503599627370496],
      (subst to_unsigned_Fin[where n=1]; simp))

lemma braw_2p31: "WriteJPEG_dims oor 2147483648 2147483648 1 = (2, 2)"
  by (simp add: WriteJPEG_dims_def scale_1_2p31 scaled_2p31)

lemma r3d_2p31:
  "writeBGRAasJPEG_dims oor 2147483648 2147483648 1 = (2147483648, 2147483648)"
  by (simp add: writeBGRAasJPEG_dims_def)

lemma short_edge_ucast:
  fixes srcW srcH :: "32 word"
  shows "(if (ucast srcW :: 64 word) < ucast srcH then (ucast srcW :: 64 word) else ucast srcH)
       = ucast (if srcW < srcH then srcW else srcH)"
proof -
  have "uint (ucast srcW :: 64 word) = uint srcW" "uint (ucast srcH :: 64 word) = uint srcH"
    by (simp_all add: uint_up_ucast is_up)
  hence "(ucast srcW :: 64 word) < ucast srcH \<longleftrightarrow> srcW < srcH"
    by (simp add: word_less_def)
  thus ?thesis by simp
qed

lemma same_scaling:
  fixes srcW srcH maxDim :: "32 word"
  assumes "uint (if srcW < srcH then srcW else srcH) < 2 ^ 31"
  shows "uint (fst (WriteJPEG_dims oor srcW srcH maxDim))
           = uint (fst (writeBGRAasJPEG_dims oor' (ucast srcW) (ucast srcH) maxDim))
       \<and> uint (snd (WriteJPEG_dims oor srcW srcH maxDim))
           = uint (snd (writeBGRAasJPEG_dims oor' (ucast srcW) (ucast srcH) maxDim))"
proof -
  define e where "e = (if srcW < srcH then srcW else srcH)"
  define W :: "64 word" where "W = ucast srcW"
  define H :: "64 word" where "H = ucast srcH"
  have uW: "uint W = uint srcW" and uH: "uint H = uint srcH"
    by (simp_all add: W_def H_def uint_up_ucast is_up)
  have e64: "(if W < H then W else H) = ucast e"
    unfolding W_def H_def e_def by (rule short_edge_ucast)
  have ue: "uint (ucast e :: 64 word) = uint e" by (simp add: uint_up_ucast is_up)
  have rt: "(ucast (ucast e :: 64 word) :: 32 word) = e"
    by (simp add: ucast_up_ucast is_up)
  have se: "sint e = uint e" using assms unfolding e_def[symmetric] by (simp add: sint_cases)
  show ?thesis
  proof (cases "0 < sint maxDim \<and> maxDim < e")
    case True
    hence g32: "0 < sint maxDim" "maxDim < (if srcW < srcH then srcW else srcH)"
      by (simp_all add: e_def)
    have "sint maxDim = uint maxDim" using True sint_pos_uint(1)[of maxDim] by simp
    hence "sint maxDim < sint e" using True se by (simp add: word_less_def)
    hence g64: "sint maxDim < sint (ucast (if W < H then W else H) :: 32 word)"
      unfolding e64 rt .
    obtain X Y where b: "WriteJPEG_dims oor srcW srcH maxDim =
          ((to_unsigned oor (Fin X) + 1) AND NOT 1, (to_unsigned oor (Fin Y) + 1) AND NOT 1)"
        and bX: "fmul dbl_round (d_of_int (uint srcW))
               (fdiv dbl_round (d_of_int (sint maxDim)) (d_of_int (uint e))) = Fin X"
        and bY: "fmul dbl_round (d_of_int (uint srcH))
               (fdiv dbl_round (d_of_int (sint maxDim)) (d_of_int (uint e))) = Fin Y"
        and X: "0 \<le> X" "X < of_int (uint srcW)" and Y: "0 \<le> Y" "Y < of_int (uint srcH)"
      using braw_resize_branch[OF g32, of oor] unfolding e_def[symmetric] by blast
    obtain X' Y' where r: "writeBGRAasJPEG_dims oor' W H maxDim =
          ((to_unsigned oor' (Fin X') + 1) AND NOT 1, (to_unsigned oor' (Fin Y') + 1) AND NOT 1)"
        and rX: "fmul dbl_round (d_of_int (uint W))
               (fdiv dbl_round (d_of_int (sint maxDim))
                 (d_of_int (uint (if W < H then W else H)))) = Fin X'"
        and rY: "fmul dbl_round (d_of_int (uint H))
               (fdiv dbl_round (d_of_int (sint maxDim))
                 (d_of_int (uint (if W < H then W else H)))) = Fin Y'"
      using r3d_resize_branch[OF g32(1) g64, of oor'] by blast
    have "X' = X" using rX bX unfolding e64 ue uW by simp
    moreover have "Y' = Y" using rY bY unfolding e64 ue uH by simp
    ultimately have r': "writeBGRAasJPEG_dims oor' W H maxDim =
          ((to_unsigned oor' (Fin X) + 1) AND NOT 1, (to_unsigned oor' (Fin Y) + 1) AND NOT 1)"
      using r by simp
    have W32: "uint srcW < 2 ^ LENGTH(32)" and H32: "uint srcH < 2 ^ LENGTH(32)"
      using uint_lt2p[of srcW] uint_lt2p[of srcH] by simp_all
    have W64: "uint srcW < 2 ^ LENGTH(64)" and H64: "uint srcH < 2 ^ LENGTH(64)"
      using uint_lt2p[of srcW] uint_lt2p[of srcH] by simp_all
    show ?thesis
      unfolding W_def[symmetric] H_def[symmetric] b r' fst_conv snd_conv
      by (simp only: stored_edge[OF X W32] stored_edge[OF X W64]
          stored_edge[OF Y H32] stored_edge[OF Y H64] simp_thms)
  next
    case False
    hence b: "WriteJPEG_dims oor srcW srcH maxDim = (srcW, srcH)"
      by (auto simp add: WriteJPEG_dims_def Let_def e_def)
    have "\<not> (0 < sint maxDim \<and> sint maxDim < sint (ucast (if W < H then W else H) :: 32 word))"
    proof
      assume a: "0 < sint maxDim \<and> sint maxDim < sint (ucast (if W < H then W else H) :: 32 word)"
      hence "sint maxDim = uint maxDim" using sint_pos_uint(1)[of maxDim] by simp
      moreover have "sint maxDim < uint e" using a unfolding e64 rt se by simp
      ultimately have "maxDim < e" by (simp add: word_less_def)
      thus False using a False by simp
    qed
    hence r: "writeBGRAasJPEG_dims oor' W H maxDim = (W, H)"
      by (auto simp add: writeBGRAasJPEG_dims_def Let_def)
    show ?thesis unfolding W_def[symmetric] H_def[symmetric] b r using uW uH by simp
  qed
qed

lemma unat_le_iff_uint: "unat (a::'a::len word) \<le> unat (b::'b::len word) \<longleftrightarrow> uint a \<le> uint b"
  by (simp only: uint_nat of_nat_le_iff)

lemma even_unat_iff_uint: "even (unat (a::'a::len word)) \<longleftrightarrow> even (uint a)"
  by (simp only: uint_nat even_of_nat_iff)

lemma unat_eq_iff_uint: "unat (a::'a::len word) = unat (b::'b::len word) \<longleftrightarrow> uint a = uint b"
  by (simp only: uint_nat of_nat_eq_iff)



section \<open>Frame index: the clamp\<close>

lemma word_pred_less: "0 < (n::'a::len word) \<Longrightarrow> n - 1 < n"
  by (metis word_gt_0 word_less_nat_alt unat_minus_one diff_less unat_gt_0 zero_less_one)

lemma clamp_index_less:
  "0 < (n::'a::len word) \<Longrightarrow> (if n \<le> i then n - 1 else i) < n"
  using word_pred_less[of n] by auto

lemma clamp_index_unat:
  assumes "0 < (n::'a::len word)"
  shows "unat (if n \<le> i then n - 1 else i) = min (unat i) (unat n - 1)"
proof -
  have n0: "n \<noteq> 0" using assms by auto
  have "unat (n - 1) = unat n - 1" using n0 by (rule unat_minus_one)
  moreover have "0 < unat n" using assms by (simp add: unat_gt_0)
  ultimately show ?thesis by (auto simp add: word_le_nat_alt min_def)
qed

lemma to_unsigned_in_range:
  assumes "0 \<le> p" "\<lfloor>p\<rfloor> < 2 ^ LENGTH('a)"
  shows "unat (to_unsigned oor (Fin p) :: 'a::len word) = nat \<lfloor>p\<rfloor>"
proof -
  have "0 \<le> \<lfloor>p\<rfloor>" using assms(1) by simp
  hence "uint (word_of_int \<lfloor>p\<rfloor> :: 'a word) = \<lfloor>p\<rfloor>"
    using assms(2) by (simp only: uint_word_of_int_eq) (simp add: take_bit_int_eq_self)
  thus ?thesis using assms \<open>0 \<le> \<lfloor>p\<rfloor>\<close> by (simp add: to_unsigned_def ftrunc_def unat_eq_nat_uint del: nat_uint_eq)
qed


lemma product_10_24: "fmul dbl_round (Fin 10) (Fin 24) = Fin 240"
  by (simp add: fmul_pos dbl_round_cert[where k=7 and n=8444249301319680])


section \<open>Audio samples\<close>













section \<open>The two timestamp parsers\<close>

lemma braw_loop_unfold:
  "ParseTimesJSON_loop strtod p =
     (if p = [] then []
      else if dropWhile (\<lambda>c. c = CHR '' '' \<or> c = CHR '','') p = []
            \<or> hd (dropWhile (\<lambda>c. c = CHR '' '' \<or> c = CHR '','') p) = CHR '']'' then []
      else if 0 < snd (strtod (dropWhile (\<lambda>c. c = CHR '' '' \<or> c = CHR '','') p))
        then fst (strtod (dropWhile (\<lambda>c. c = CHR '' '' \<or> c = CHR '','') p))
          # ParseTimesJSON_loop strtod
              (drop (snd (strtod (dropWhile (\<lambda>c. c = CHR '' '' \<or> c = CHR '','') p)))
                (dropWhile (\<lambda>c. c = CHR '' '' \<or> c = CHR '','') p))
        else ParseTimesJSON_loop strtod (tl (dropWhile (\<lambda>c. c = CHR '' '' \<or> c = CHR '','') p)))"
  by (subst ParseTimesJSON_loop.simps) (simp add: Let_def)

lemma braw_loop_Nil: "ParseTimesJSON_loop strtod [] = []"
  by (subst ParseTimesJSON_loop.simps) simp

lemma r3d_loop_Nil: "r3d_parse_loop strtod [] = []"
  by (subst r3d_parse_loop.simps) simp

lemma braw_loop_skip:
  assumes "c = CHR '' '' \<or> c = CHR '',''"
  shows "ParseTimesJSON_loop strtod (c # s) = ParseTimesJSON_loop strtod s"
proof (cases "s = []")
  case True
  thus ?thesis using assms by (subst braw_loop_unfold) (auto simp add: braw_loop_Nil)
next
  case False
  have d: "dropWhile (\<lambda>c. c = CHR '' '' \<or> c = CHR '','') (c # s)
      = dropWhile (\<lambda>c. c = CHR '' '' \<or> c = CHR '','') s"
    using assms by auto
  show ?thesis
    by (subst braw_loop_unfold, subst (2) braw_loop_unfold) (simp only: d False list.simps if_False)
qed

lemma braw_loop_token:
  assumes "c \<noteq> CHR '' ''" "c \<noteq> CHR '',''" "c \<noteq> CHR '']''" "0 < snd (strtod (c # s))"
  shows "ParseTimesJSON_loop strtod (c # s)
       = fst (strtod (c # s)) # ParseTimesJSON_loop strtod (drop (snd (strtod (c # s))) (c # s))"
  using assms by (subst braw_loop_unfold) simp

lemma braw_loop_reject:
  assumes "c \<noteq> CHR '' ''" "c \<noteq> CHR '',''" "c \<noteq> CHR '']''" "snd (strtod (c # s)) = 0"
  shows "ParseTimesJSON_loop strtod (c # s) = ParseTimesJSON_loop strtod s"
  using assms by (subst braw_loop_unfold) simp

lemma braw_loop_close: "ParseTimesJSON_loop strtod (CHR '']'' # s) = []"
  by (subst braw_loop_unfold) simp

text \<open>Where \<^verbatim>\<open>strtod\<close> converts, braw-tool's loop takes the value, also across blanks.\<close>

lemma braw_loop_converts:
  assumes ok: "strtod_ok strtod" and n: "0 < snd (strtod s)"
  shows "ParseTimesJSON_loop strtod s
       = fst (strtod s) # ParseTimesJSON_loop strtod (drop (snd (strtod s)) s)"
  using n
proof (induction s)
  case Nil
  thus ?case using ok by (simp add: strtod_ok_def)
next
  case (Cons c t)
  show ?case
  proof (cases "c = CHR '' ''")
    case True
    have sh: "strtod (c # t) = (fst (strtod t), if snd (strtod t) = 0 then 0 else Suc (snd (strtod t)))"
      using ok True by (simp add: strtod_ok_def)
    have nt: "0 < snd (strtod t)" using Cons.prems sh by (auto split: if_splits)
    have "ParseTimesJSON_loop strtod (c # t) = ParseTimesJSON_loop strtod t"
      using True by (intro braw_loop_skip) simp
    also have "\<dots> = fst (strtod t) # ParseTimesJSON_loop strtod (drop (snd (strtod t)) t)"
      using nt by (rule Cons.IH)
    finally show ?thesis using sh nt by simp
  next
    case False
    have c1: "c \<noteq> CHR '',''" using ok Cons.prems by (auto simp add: strtod_ok_def)
    have c2: "c \<noteq> CHR '']''" using ok Cons.prems by (auto simp add: strtod_ok_def)
    show ?thesis using False c1 c2 Cons.prems by (rule braw_loop_token)
  qed
qed

lemma braw_loop_newline:
  assumes ok: "strtod_ok strtod"
  shows "ParseTimesJSON_loop strtod (CHR 0x0A # s) = ParseTimesJSON_loop strtod s"
proof -
  have sh: "strtod (CHR 0x0A # s)
      = (fst (strtod s), if snd (strtod s) = 0 then 0 else Suc (snd (strtod s)))"
    using ok by (simp add: strtod_ok_def)
  show ?thesis
  proof (cases "snd (strtod s) = 0")
    case True
    hence "snd (strtod (CHR 0x0A # s)) = 0" using sh by simp
    thus ?thesis by (intro braw_loop_reject) simp_all
  next
    case False
    hence n: "0 < snd (strtod s)" by simp
    hence "0 < snd (strtod (CHR 0x0A # s))" using sh by simp
    hence "ParseTimesJSON_loop strtod (CHR 0x0A # s)
        = fst (strtod (CHR 0x0A # s))
          # ParseTimesJSON_loop strtod (drop (snd (strtod (CHR 0x0A # s))) (CHR 0x0A # s))"
      by (intro braw_loop_token) simp_all
    also have "\<dots> = fst (strtod s) # ParseTimesJSON_loop strtod (drop (snd (strtod s)) s)"
      using sh n by simp
    also have "\<dots> = ParseTimesJSON_loop strtod s"
      using braw_loop_converts[OF ok n] by simp
    finally show ?thesis .
  qed
qed

lemma braw_loop_r3d_skip:
  assumes ok: "strtod_ok strtod"
  shows "ParseTimesJSON_loop strtod (dropWhile (\<lambda>c. c = CHR '' '' \<or> c = CHR '','' \<or> c = CHR 0x0A) p)
       = ParseTimesJSON_loop strtod p"
proof (induction p)
  case Nil
  show ?case by simp
next
  case (Cons c t)
  show ?case
  proof (cases "c = CHR '' '' \<or> c = CHR '','' \<or> c = CHR 0x0A")
    case True
    hence "ParseTimesJSON_loop strtod (c # t) = ParseTimesJSON_loop strtod t"
      using braw_loop_skip[of c strtod t] braw_loop_newline[OF ok, of t] by blast
    thus ?thesis using True Cons.IH by simp
  next
    case False
    thus ?thesis by simp
  qed
qed

lemma r3d_loop_unfold:
  "p \<noteq> [] \<Longrightarrow> r3d_parse_loop strtod p =
     (if dropWhile (\<lambda>c. c = CHR '' '' \<or> c = CHR '','' \<or> c = CHR 0x0A) p = []
         \<or> hd (dropWhile (\<lambda>c. c = CHR '' '' \<or> c = CHR '','' \<or> c = CHR 0x0A) p) = CHR '']''
      then []
      else if snd (strtod (dropWhile (\<lambda>c. c = CHR '' '' \<or> c = CHR '','' \<or> c = CHR 0x0A) p)) = 0
        then []
        else fst (strtod (dropWhile (\<lambda>c. c = CHR '' '' \<or> c = CHR '','' \<or> c = CHR 0x0A) p))
          # r3d_parse_loop strtod
              (drop (snd (strtod (dropWhile (\<lambda>c. c = CHR '' '' \<or> c = CHR '','' \<or> c = CHR 0x0A) p)))
                (dropWhile (\<lambda>c. c = CHR '' '' \<or> c = CHR '','' \<or> c = CHR 0x0A) p)))"
  by (subst r3d_parse_loop.simps) (simp only: Let_def if_False)

lemma r3d_all_convert_unfold:
  "p \<noteq> [] \<Longrightarrow> r3d_all_convert strtod p =
     (if dropWhile (\<lambda>c. c = CHR '' '' \<or> c = CHR '','' \<or> c = CHR 0x0A) p = []
         \<or> hd (dropWhile (\<lambda>c. c = CHR '' '' \<or> c = CHR '','' \<or> c = CHR 0x0A) p) = CHR '']''
      then True
      else if snd (strtod (dropWhile (\<lambda>c. c = CHR '' '' \<or> c = CHR '','' \<or> c = CHR 0x0A) p)) = 0
        then False
        else r3d_all_convert strtod
              (drop (snd (strtod (dropWhile (\<lambda>c. c = CHR '' '' \<or> c = CHR '','' \<or> c = CHR 0x0A) p)))
                (dropWhile (\<lambda>c. c = CHR '' '' \<or> c = CHR '','' \<or> c = CHR 0x0A) p)))"
  by (subst r3d_all_convert.simps) (simp only: Let_def if_False)

lemma r3d_all_convert_Nil: "r3d_all_convert strtod [] = True"
  by (subst r3d_all_convert.simps) simp

lemma parsers_agree_loop:
  assumes ok: "strtod_ok strtod"
  shows "prefix (r3d_parse_loop strtod p) (ParseTimesJSON_loop strtod p)
       \<and> (r3d_all_convert strtod p \<longrightarrow> r3d_parse_loop strtod p = ParseTimesJSON_loop strtod p)"
  using ok
proof (induction strtod p rule: r3d_parse_loop.induct)
  case (1 strtod p)
  define p1 where "p1 = dropWhile (\<lambda>c. c = CHR '' '' \<or> c = CHR '','' \<or> c = CHR 0x0A) p"
  have b: "ParseTimesJSON_loop strtod p = ParseTimesJSON_loop strtod p1"
    unfolding p1_def by (rule braw_loop_r3d_skip[OF "1.prems", symmetric])
  show ?case
  proof (cases "p = []")
    case True
    thus ?thesis by (simp add: braw_loop_Nil r3d_loop_Nil)
  next
    case pne: False
    have r: "r3d_parse_loop strtod p =
        (if p1 = [] \<or> hd p1 = CHR '']'' then []
         else if snd (strtod p1) = 0 then []
         else fst (strtod p1) # r3d_parse_loop strtod (drop (snd (strtod p1)) p1))"
      unfolding p1_def using pne by (rule r3d_loop_unfold)
    have a: "r3d_all_convert strtod p =
        (if p1 = [] \<or> hd p1 = CHR '']'' then True
         else if snd (strtod p1) = 0 then False
         else r3d_all_convert strtod (drop (snd (strtod p1)) p1))"
      unfolding p1_def using pne by (rule r3d_all_convert_unfold)
    show ?thesis
    proof (cases "p1 = [] \<or> hd p1 = CHR '']''")
      case True
      hence "ParseTimesJSON_loop strtod p1 = []"
        by (cases p1) (auto simp add: braw_loop_Nil braw_loop_close)
      moreover have "r3d_parse_loop strtod p = []" using r True by (simp only: if_True)
      ultimately show ?thesis unfolding b by simp
    next
      case body: False
      show ?thesis
      proof (cases "snd (strtod p1) = 0")
        case True
        have "r3d_parse_loop strtod p = []" using r body True by (simp only: if_False if_True simp_thms)
        moreover have "\<not> r3d_all_convert strtod p"
          using a body True by (simp only: if_False if_True simp_thms)
        ultimately show ?thesis by simp
      next
        case False
        hence n: "0 < snd (strtod p1)" by simp
        have bc: "ParseTimesJSON_loop strtod p1
            = fst (strtod p1) # ParseTimesJSON_loop strtod (drop (snd (strtod p1)) p1)"
          using "1.prems" n by (rule braw_loop_converts)
        have ih: "prefix (r3d_parse_loop strtod (drop (snd (strtod p1)) p1))
              (ParseTimesJSON_loop strtod (drop (snd (strtod p1)) p1))
            \<and> (r3d_all_convert strtod (drop (snd (strtod p1)) p1) \<longrightarrow>
                r3d_parse_loop strtod (drop (snd (strtod p1)) p1)
                  = ParseTimesJSON_loop strtod (drop (snd (strtod p1)) p1))"
          using "1.IH"[OF pne p1_def body False "1.prems"] .
        have r': "r3d_parse_loop strtod p
            = fst (strtod p1) # r3d_parse_loop strtod (drop (snd (strtod p1)) p1)"
          using r body False by (simp only: if_False)
        have a': "r3d_all_convert strtod p
            = r3d_all_convert strtod (drop (snd (strtod p1)) p1)"
          using a body False by (simp only: if_False)
        show ?thesis unfolding r' a' b bc Cons_prefix_Cons list.inject using ih by blast
      qed
    qed
  qed
qed

lemma strtod_plain_ok: "strtod_ok strtod_plain"
  unfolding strtod_ok_def
proof (intro conjI allI)
  show "snd (strtod_plain []) = 0" by (simp add: strtod_plain_def number_prefix_def)
  show "snd (strtod_plain (CHR '','' # s)) = 0" for s
    by (simp add: strtod_plain_def is_space_def number_prefix_def is_digit_def)
  show "snd (strtod_plain (CHR '']'' # s)) = 0" for s
    by (simp add: strtod_plain_def is_space_def number_prefix_def is_digit_def)
  show "strtod_plain (CHR '' '' # s)
      = (fst (strtod_plain s), if snd (strtod_plain s) = 0 then 0 else Suc (snd (strtod_plain s)))" for s
    by (simp add: strtod_plain_def is_space_def)
  show "strtod_plain (CHR 0x0A # s)
      = (fst (strtod_plain s), if snd (strtod_plain s) = 0 then 0 else Suc (snd (strtod_plain s)))" for s
    by (simp add: strtod_plain_def is_space_def)
qed

lemma strtod_plain_x: "strtod_plain ''x,1]'' = (0, 0)"
  by (simp add: strtod_plain_def is_space_def number_prefix_def is_digit_def)

lemma strtod_plain_1: "strtod_plain ''1]'' = (1, 1)"
  by (simp add: strtod_plain_def is_space_def number_prefix_def is_digit_def digits_val_def)

lemma braw_parses_x_1: "ParseTimesJSON strtod_plain ''[x,1]'' = [1]"
  unfolding ParseTimesJSON_def after_bracket_def
  apply simp
  apply (subst braw_loop_unfold, simp add: strtod_plain_x)
  apply (subst braw_loop_unfold, simp add: strtod_plain_1)
  apply (subst braw_loop_unfold, simp)
  done

lemma r3d_parses_x_1: "r3d_parse_times strtod_plain ''[x,1]'' = []"
  unfolding r3d_parse_times_def after_bracket_def
  apply simp
  apply (subst r3d_loop_unfold, simp, simp add: strtod_plain_x)
  done

lemma strtod_plain_15: "strtod_plain (CHR ''1'' # CHR ''.'' # CHR ''5'' # CHR '','' # CHR 0x0A # '' 3]'') = (3 / 2, 3)"
  by (simp add: strtod_plain_def is_space_def number_prefix_def is_digit_def digits_val_def)

lemma strtod_plain_nl3: "strtod_plain (CHR 0x0A # '' 3]'') = (3, 3)"
  by (simp add: strtod_plain_def is_space_def number_prefix_def is_digit_def digits_val_def)

lemma strtod_plain_3: "strtod_plain ''3]'' = (3, 1)"
  by (simp add: strtod_plain_def is_space_def number_prefix_def is_digit_def digits_val_def)

lemma braw_parses_times_arg: "ParseTimesJSON strtod_plain times_arg = [3 / 2, 3]"
  unfolding ParseTimesJSON_def after_bracket_def times_arg_def
  apply simp
  apply (subst braw_loop_unfold, simp add: strtod_plain_15)
  apply (subst braw_loop_unfold, simp add: strtod_plain_nl3)
  apply (subst braw_loop_unfold, simp)
  done

lemma r3d_converts_times_arg: "r3d_all_convert strtod_plain (after_bracket times_arg)"
  unfolding after_bracket_def times_arg_def
  apply simp
  apply (subst r3d_all_convert_unfold, simp, simp add: strtod_plain_15)
  apply (subst r3d_all_convert_unfold, simp, simp add: strtod_plain_3)
  apply (subst r3d_all_convert_unfold, simp, simp)
  done
section \<open>Running the commands\<close>





lemma dec_48000: "dec 48000 = ''48000''" by (simp add: dec.simps digit_char_def)
lemma dec_small: "dec 0 = ''0''" "dec 2 = ''2''" "dec 16 = ''16''" "dec 24 = ''24''" "dec 10 = ''10''"
  by (simp_all add: dec.simps digit_char_def)







lemma braw_header_example:
  "braw_header 48000 16 2 48000 =
     \<lparr> wavContentSize = 192036, fmtChunkSize = 16, audioFormat = 1, channelCount = 2,
       sampleRate = 48000, bytesPerSecond = 192000, blockAlign = 4, bitDepth = 16,
       dataBytes = 192000 \<rparr>"
  by (simp add: braw_header_def Let_def)

lemma le32_192000: "le32 192000 = [0x00, 0xEE, 0x02, 0x00]"
  by (simp add: le32_def)

lemma braw_audio_loop_fails_at_once:
  "braw_audio_loop braw_clip 48000 0 [] = Some []"
  by (subst braw_audio_loop.simps) (simp add: braw_clip_def E_FAIL_def S_OK_def)

lemma length_WavHeader_bytes: "length (WavHeader_bytes hdr) = 44"
  by (simp add: WavHeader_bytes_def tag_def le16_def le32_def)





























lemma r3d_init_ok: "InitializeSdk r3d_clip = ISInitializeOK"
  by (simp add: r3d_clip_def)





lemma braw_main_missing_example:
  "braw_main pf_example braw_clip [''braw-tool'', ''probe'', ''missing.braw''] =
   Some ([], 1, None)"
  by (simp add: braw_main_def CmdProbe_def braw_clip_def E_FAIL_def S_OK_def)

lemma r3d_main_missing_example:
  "r3d_main pf_example r3d_clip [''r3d-tool'', ''probe'', ''missing.R3D''] =
   Some ([], 1, None)"
  by (simp add: r3d_main_def r3d_init_ok cmd_probe_def, simp add: r3d_clip_def)

section \<open>The header of the WAV file\<close>

text \<open>
  r3d-tool counts the bytes it writes and puts the count in the header at the end, so
  the \<^verbatim>\<open>dataSize\<close> field of a run that returns 0 is the length of the payload (modulo
  \<open>2 ^ 32\<close>, the width of the field). braw-tool fills the field in from the metadata.
\<close>

lemma length_le16_chunk: "length (concat (map le16 xs)) = 2 * length xs"
  by (induction xs) (simp_all add: le16_def)

lemma r3d_chunk_length:
  fixes totalValues :: "64 word"
  shows "length (take (unat (totalValues * 2))
           (concat (map le16 (convert_chunk oor isFloat f raw (unat totalValues)))))
         = unat (totalValues * 2)"
proof -
  have l: "length (convert_chunk oor isFloat f raw (unat totalValues)) = unat totalValues"
    by (simp add: convert_chunk_def)
  have "unat (totalValues * 2) \<le> unat totalValues * 2"
    by (simp add: unat_word_ariths(2))
  thus ?thesis by (simp add: length_le16_chunk l)
qed


lemma r3d_audio_loop_counts:
  assumes "r3d_audio_loop pf sdk channels isFloat totalSamples decoded d written = Some y"
  shows "fst y - of_nat (length (snd y)) = d - of_nat (length written)"
proof (rule r3d_audio_loop.raw_induct[where P = "\<lambda>pf sdk channels isFloat totalSamples
      decoded d written y. fst y - of_nat (length (snd y)) = d - of_nat (length written)",
      OF _ assms])
  fix loop :: "platform \<Rightarrow> r3d_sdk \<Rightarrow> 64 word \<Rightarrow> bool \<Rightarrow> 64 word \<Rightarrow> 64 word \<Rightarrow> 32 word
      \<Rightarrow> 8 word list \<Rightarrow> (32 word \<times> 8 word list) option"
    and pf sdk channels isFloat totalSamples decoded d written y
  assume ih: "\<And>pf sdk channels isFloat totalSamples decoded d written y.
      loop pf sdk channels isFloat totalSamples decoded d written = Some y \<Longrightarrow>
      fst y - of_nat (length (snd y)) = d - of_nat (length written)"
  assume step: "(if decoded < totalSamples then
        (let want = (if totalSamples - decoded < 48000 then totalSamples - decoded else 48000);
             ds = (if isFloat then fst (DecodeFloatAudio sdk decoded want)
                   else fst (DecodeAudio sdk decoded want));
             got = (if isFloat then fst (snd (DecodeFloatAudio sdk decoded want))
                    else fst (snd (DecodeAudio sdk decoded want)))
         in if ds \<noteq> DSDecodeOK \<or> got = 0 then Some (d, written)
            else
              let totalValues = got * channels;
                  out16 = convert_chunk (cvt_s16 pf) isFloat
                            (snd (snd (DecodeFloatAudio sdk decoded want)))
                            (snd (snd (DecodeAudio sdk decoded want)))
                            (unat totalValues);
                  wb = totalValues * 2
              in loop pf sdk channels isFloat totalSamples (decoded + got)
                   (d + ucast wb)
                   (written @ take (unat wb) (concat (map le16 out16))))
      else Some (d, written)) = Some y"
  show "fst y - of_nat (length (snd y)) = d - of_nat (length written)"
  proof (cases "decoded < totalSamples")
    case False
    thus ?thesis using step by auto
  next
    case True
    define want where "want = (if totalSamples - decoded < 48000 then totalSamples - decoded else 48000)"
    define ds where "ds = (if isFloat then fst (DecodeFloatAudio sdk decoded want)
                   else fst (DecodeAudio sdk decoded want))"
    define got where "got = (if isFloat then fst (snd (DecodeFloatAudio sdk decoded want))
                    else fst (snd (DecodeAudio sdk decoded want)))"
    show ?thesis
    proof (cases "ds \<noteq> DSDecodeOK \<or> got = 0")
      case True
      thus ?thesis using step \<open>decoded < totalSamples\<close>
        unfolding want_def ds_def got_def by (auto simp add: Let_def)
    next
      case False
      define chunk where "chunk = take (unat (got * channels * 2))
          (concat (map le16 (convert_chunk (cvt_s16 pf) isFloat
                            (snd (snd (DecodeFloatAudio sdk decoded want)))
                            (snd (snd (DecodeAudio sdk decoded want)))
                            (unat (got * channels)))))"
      have len: "length chunk = unat (got * channels * 2)"
        unfolding chunk_def by (rule r3d_chunk_length)
      have "loop pf sdk channels isFloat totalSamples (decoded + got)
              (d + ucast (got * channels * 2)) (written @ chunk) = Some y"
        using step \<open>decoded < totalSamples\<close> False
        unfolding want_def ds_def got_def chunk_def by (auto simp add: Let_def)
      from ih[OF this]
      have "fst y - of_nat (length (snd y))
          = d + ucast (got * channels * 2) - of_nat (length (written @ chunk))" .
      also have "\<dots> = d - of_nat (length written)"
        by (simp add: len)
      finally show ?thesis .
    qed
  qed
qed

lemma r3d_header_counts_payload:
  assumes "cmd_extract_audio pf sdk filePath outputPath = Some (out, 0, Some wav)"
  shows "\<exists>hdr payload. wav = WavHeader_bytes hdr @ payload
           \<and> fmtChunkSize hdr = 16 \<and> audioFormat hdr = 1 \<and> bitDepth hdr = 16
           \<and> wavContentSize hdr = 36 + dataBytes hdr
           \<and> dataBytes hdr = of_nat (length payload)"
proof -
  define channels where "channels = AudioChannelCount sdk"
  define sr where "sr = (if RMD_SAMPLERATE sdk = 0 then 48000 else RMD_SAMPLERATE sdk)"
  obtain d payload where
    l: "r3d_audio_loop pf sdk channels (RMD_AUDIO_FORMAT sdk = Some 1) (AudioSampleCount sdk)
          0 0 [] = Some (d, payload)"
    and w: "wav = WavHeader_bytes (r3d_header channels sr (Some d)) @ payload"
    using assms unfolding cmd_extract_audio_def Let_def channels_def sr_def
    by (auto split: if_splits option.splits)
  from r3d_audio_loop_counts[OF l] have d: "d = of_nat (length payload)" by simp
  show ?thesis
    by (intro exI[of _ "r3d_header channels sr (Some d)"] exI[of _ payload])
       (simp add: w d r3d_header_def)
qed

lemma braw_header_fixed_fields:
  assumes "CmdExtractAudio pf sdk filePath outputPath = Some (out, 0, Some wav)"
  shows "\<exists>hdr payload. wav = WavHeader_bytes hdr @ payload
           \<and> fmtChunkSize hdr = 16 \<and> audioFormat hdr = 1
           \<and> wavContentSize hdr = 36 + dataBytes hdr"
proof -
  obtain payload where
    w: "wav = WavHeader_bytes (braw_header (GetAudioSampleCount sdk) (GetAudioBitDepth sdk)
                 (GetAudioChannelCount sdk) (GetAudioSampleRate sdk)) @ payload"
    using assms unfolding CmdExtractAudio_def
    by (auto split: if_splits option.splits)
  show ?thesis
    by (intro exI[of _ "braw_header (GetAudioSampleCount sdk) (GetAudioBitDepth sdk)
                 (GetAudioChannelCount sdk) (GetAudioSampleRate sdk)"] exI[of _ payload])
       (simp add: w braw_header_def Let_def)
qed

section \<open>Reading the printed array back\<close>



















section \<open>Claims\<close>

text \<open>
  Claim C1: when \<open>maxDim > 0\<close> and the short edge exceeds \<open>maxDim\<close>, the target size is
  \<open>\<lfloor>srcW * maxDim / shortEdge\<rfloor>\<close> and \<open>\<lfloor>srcH * maxDim / shortEdge\<rfloor>\<close>, each rounded up to
  the next even number. Both tools compute \<open>src * (maxDim / shortEdge)\<close> in \<^verbatim>\<open>double\<close>
  instead, with two roundings, and truncate: where the exact product is an odd integer
  and the rounded one falls just below it, the code returns two less than the claimed
  edge. A 1920 x 1080 image with \<open>maxDim = 39\<close> gets 70 x 38 instead of 70 x 40, and a
  49 x 49 image with \<open>maxDim = 1\<close> gets the empty size 0 x 0 instead of 2 x 2.
\<close>

theorem C1_target_size_misses_exact_scaling:
  "WriteJPEG_dims oor 1920 1080 39 = (70, 38)
   \<and> writeBGRAasJPEG_dims oor' 1920 1080 39 = (70, 38)
   \<and> spec_dims 1920 1080 39 = (70, 40)
   \<and> WriteJPEG_dims oor 49 49 1 = (0, 0)
   \<and> writeBGRAasJPEG_dims oor' 49 49 1 = (0, 0)
   \<and> spec_dims 49 49 1 = (2, 2)"
  by (simp only: braw_1920_1080_39 r3d_1920_1080_39 spec_1920_1080_39 braw_49 r3d_49 spec_49
      simp_thms)



text \<open>
  Claim C5: for every pair of source dimensions and every \<open>maxDim\<close> the two tools
  compute the same target size. As stated this fails where the short edge does not fit an
  \<^verbatim>\<open>int\<close>: braw-tool compares it as \<^verbatim>\<open>uint32_t\<close> and resizes, r3d-tool casts it to \<^verbatim>\<open>int\<close>,
  finds it negative and leaves the size alone.
\<close>

theorem C5_counterexample:
  "WriteJPEG_dims (\<lambda>_. 0) 2147483648 2147483648 1 = (2, 2)
   \<and> writeBGRAasJPEG_dims (\<lambda>_. 0) 2147483648 2147483648 1 = (2147483648, 2147483648)"
  by (simp only: braw_2p31 r3d_2p31 simp_thms)

text \<open>
  Claim C5, amended: for all source dimensions whose short edge is below \<open>2 ^ 31\<close> and
  every \<open>maxDim\<close>, the two tools compute the same target size.
\<close>

theorem C5_same_scaling_below_int_max:
  fixes srcW srcH maxDim :: "32 word"
  assumes "min (unat srcW) (unat srcH) < 2 ^ 31"
  shows "unat (fst (WriteJPEG_dims oor srcW srcH maxDim))
           = unat (fst (writeBGRAasJPEG_dims oor' (ucast srcW) (ucast srcH) maxDim))
       \<and> unat (snd (WriteJPEG_dims oor srcW srcH maxDim))
           = unat (snd (writeBGRAasJPEG_dims oor' (ucast srcW) (ucast srcH) maxDim))"
proof -
  have "unat (if srcW < srcH then srcW else srcH) = min (unat srcW) (unat srcH)"
    by (simp add: word_less_nat_alt min_def)
  hence "unat (if srcW < srcH then srcW else srcH) < 2 ^ 31" using assms by simp
  hence "uint (if srcW < srcH then srcW else srcH) < 2 ^ 31"
    unfolding uint_nat by (metis of_nat_less_iff of_nat_numeral of_nat_power)
  thus ?thesis unfolding unat_eq_iff_uint by (rule same_scaling)
qed

theorem C5_same_scaling_below_int_max_witness:
  "min (unat (1920 :: 32 word)) (unat (1080 :: 32 word)) < 2 ^ 31
   \<and> unat (fst (WriteJPEG_dims (\<lambda>_. 0) 1920 1080 39))
       = unat (fst (writeBGRAasJPEG_dims (\<lambda>_. 0) (ucast (1920 :: 32 word)) (ucast (1080 :: 32 word)) 39))
   \<and> unat (snd (WriteJPEG_dims (\<lambda>_. 0) 1920 1080 39))
       = unat (snd (writeBGRAasJPEG_dims (\<lambda>_. 0) (ucast (1920 :: 32 word)) (ucast (1080 :: 32 word)) 39))"
proof -
  have h: "min (unat (1920 :: 32 word)) (unat (1080 :: 32 word)) < 2 ^ 31" by simp
  show ?thesis
    using h C5_same_scaling_below_int_max[OF h, of "\<lambda>_. 0" 39 "\<lambda>_. 0"] by simp
qed

text \<open>
  Claim C8: for every requested time and every clip with a positive frame count, the
  frame index handed to the SDK (\<^verbatim>\<open>CreateJobReadFrame\<close> in braw-tool, \<^verbatim>\<open>DecodeVideoFrame\<close>
  in r3d-tool) is below the frame count; where \<open>timeSec * fps\<close> has a floor the index
  type can hold, the index is that floor clamped to \<open>frameCount - 1\<close>. The bound holds for
  every value of the product, also a negative one, an infinity or a NaN, whatever the
  conversion to the index type yields there.
\<close>

theorem C8_frame_index_below_frame_count:
  assumes "0 < frameCount"
  shows "braw_frame_index oor fps timeSec frameCount < frameCount
       \<and> r3d_frame_no oor' fps timeSec frameCount < frameCount
       \<and> (\<forall>p. fmul dbl_round timeSec fps = Fin p \<and> 0 \<le> p \<and> \<lfloor>p\<rfloor> < 2 ^ 64 \<longrightarrow>
             unat (braw_frame_index oor fps timeSec frameCount)
               = min (nat \<lfloor>p\<rfloor>) (unat frameCount - 1)
           \<and> (fless (Fin 0) fps \<and> fless (Fin 0) timeSec \<longrightarrow>
               unat (r3d_frame_no oor' fps timeSec frameCount)
                 = min (nat \<lfloor>p\<rfloor>) (unat frameCount - 1)))"
proof -
  have b: "braw_frame_index oor fps timeSec frameCount =
      (if frameCount \<le> to_unsigned oor (fmul dbl_round timeSec fps) then frameCount - 1
       else to_unsigned oor (fmul dbl_round timeSec fps))"
    using assms by (simp add: braw_frame_index_def Let_def)
  have r: "r3d_frame_no oor' fps timeSec frameCount =
      (if frameCount \<le> (if fless (Fin 0) fps \<and> fless (Fin 0) timeSec
                          then to_unsigned oor' (fmul dbl_round timeSec fps) else 0)
       then frameCount - 1
       else (if fless (Fin 0) fps \<and> fless (Fin 0) timeSec
             then to_unsigned oor' (fmul dbl_round timeSec fps) else 0))"
    using assms by (simp add: r3d_frame_no_def Let_def)
  have 1: "braw_frame_index oor fps timeSec frameCount < frameCount"
    unfolding b using assms by (rule clamp_index_less)
  have 2: "r3d_frame_no oor' fps timeSec frameCount < frameCount"
    unfolding r using assms by (rule clamp_index_less)
  have 3: "unat (braw_frame_index oor fps timeSec frameCount) = min (nat \<lfloor>p\<rfloor>) (unat frameCount - 1)"
    if "fmul dbl_round timeSec fps = Fin p" "0 \<le> p" "\<lfloor>p\<rfloor> < 2 ^ 64" for p
    unfolding b clamp_index_unat[OF assms] that(1)
    using to_unsigned_in_range[of p oor] that(2,3) by simp
  have 4: "unat (r3d_frame_no oor' fps timeSec frameCount) = min (nat \<lfloor>p\<rfloor>) (unat frameCount - 1)"
    if "fmul dbl_round timeSec fps = Fin p" "0 \<le> p" "\<lfloor>p\<rfloor> < 2 ^ 64"
      "fless (Fin 0) fps \<and> fless (Fin 0) timeSec" for p
    unfolding r clamp_index_unat[OF assms] that(1)
    using to_unsigned_in_range[of p oor'] that(2,3,4) by simp
  show ?thesis using 1 2 3 4 by blast
qed

theorem C8_frame_index_below_frame_count_witness:
  "(0 :: 64 word) < 100
   \<and> braw_frame_index (\<lambda>_. 0) (Fin 24) (Fin 10) 100 < 100
   \<and> r3d_frame_no (\<lambda>_. 0) (Fin 24) (Fin 10) 100 < 100
   \<and> unat (braw_frame_index (\<lambda>_. 0) (Fin 24) (Fin 10) 100) = 99
   \<and> unat (r3d_frame_no (\<lambda>_. 0) (Fin 24) (Fin 10) 100) = 99"
proof -
  have h: "(0 :: 64 word) < 100" by simp
  have f: "fless (Fin 0) (Fin 24) \<and> fless (Fin 0) (Fin 10)" by (simp add: fless_def)
  have p: "fmul dbl_round (Fin 10) (Fin 24) = Fin 240 \<and> (0::rat) \<le> 240 \<and> \<lfloor>240::rat\<rfloor> < 2 ^ 64"
    by (simp add: product_10_24)
  note t = C8_frame_index_below_frame_count[OF h, of "\<lambda>_. 0" "Fin 24" "Fin 10" "\<lambda>_. 0"]
  have 1: "unat (braw_frame_index (\<lambda>_. 0) (Fin 24) (Fin 10) 100)
      = min (nat \<lfloor>240::rat\<rfloor>) (unat (100 :: 64 word) - 1)"
    using t p by blast
  have 2: "unat (r3d_frame_no (\<lambda>_. 0) (Fin 24) (Fin 10) 100)
      = min (nat \<lfloor>240::rat\<rfloor>) (unat (100 :: 64 word) - 1)"
    using t p f by blast
  show ?thesis using h t 1 2 by simp
qed

text \<open>
  Claim C10: the scaling never enlarges the image (target width and height are at most
  the source's), and whenever the target differs from the source both target edges are
  even. Proved for both tools and for every \<open>maxDim\<close> (for \<open>maxDim \<le> 0\<close> nothing is
  resized), over the whole range of the argument types and whatever an out-of-range
  conversion would yield.
\<close>

theorem C10_scaling_never_enlarges:
  fixes srcW srcH maxDim :: "32 word" and width height :: "64 word"
  shows "unat (fst (WriteJPEG_dims oor srcW srcH maxDim)) \<le> unat srcW
     \<and> unat (snd (WriteJPEG_dims oor srcW srcH maxDim)) \<le> unat srcH
     \<and> (WriteJPEG_dims oor srcW srcH maxDim \<noteq> (srcW, srcH) \<longrightarrow>
          even (unat (fst (WriteJPEG_dims oor srcW srcH maxDim)))
          \<and> even (unat (snd (WriteJPEG_dims oor srcW srcH maxDim))))
     \<and> unat (fst (writeBGRAasJPEG_dims oor' width height maxDim)) \<le> unat width
     \<and> unat (snd (writeBGRAasJPEG_dims oor' width height maxDim)) \<le> unat height
     \<and> (writeBGRAasJPEG_dims oor' width height maxDim \<noteq> (width, height) \<longrightarrow>
          even (unat (fst (writeBGRAasJPEG_dims oor' width height maxDim)))
          \<and> even (unat (snd (writeBGRAasJPEG_dims oor' width height maxDim))))"
  unfolding unat_le_iff_uint even_unat_iff_uint
  using braw_never_enlarges[of oor srcW srcH maxDim]
    r3d_never_enlarges[of oor' width height maxDim]
  by blast

theorem C10_scaling_never_enlarges_witness:
  "WriteJPEG_dims (\<lambda>_. 0) 1920 1080 39 \<noteq> (1920, 1080)
   \<and> even (unat (fst (WriteJPEG_dims (\<lambda>_. 0) 1920 1080 39)))
   \<and> even (unat (snd (WriteJPEG_dims (\<lambda>_. 0) 1920 1080 39)))
   \<and> unat (fst (WriteJPEG_dims (\<lambda>_. 0) 1920 1080 39)) \<le> 1920
   \<and> writeBGRAasJPEG_dims (\<lambda>_. 0) 1920 1080 39 \<noteq> (1920, 1080)
   \<and> even (unat (fst (writeBGRAasJPEG_dims (\<lambda>_. 0) 1920 1080 39)))
   \<and> even (unat (snd (writeBGRAasJPEG_dims (\<lambda>_. 0) 1920 1080 39)))
   \<and> unat (snd (writeBGRAasJPEG_dims (\<lambda>_. 0) 1920 1080 39)) \<le> 1080"
  using C10_scaling_never_enlarges[of "\<lambda>_. 0" 1920 1080 39 "\<lambda>_. 0" 1920 1080]
  by (simp add: braw_1920_1080_39 r3d_1920_1080_39)

text \<open>
  Claim C9: for every input string braw-tool's \<^verbatim>\<open>ParseTimesJSON\<close> returns the same list
  of doubles as the parser of r3d-tool's \<^verbatim>\<open>cmd_extract_frames\<close>. As stated this fails
  where \<^verbatim>\<open>strtod\<close> converts nothing: braw-tool steps over one character and goes on,
  r3d-tool leaves the loop. On \<^verbatim>\<open>[x,1]\<close> braw-tool returns the time 1 and r3d-tool
  returns no time at all.
\<close>

theorem C9_counterexample:
  "ParseTimesJSON strtod_plain ''[x,1]'' = [1]
   \<and> r3d_parse_times strtod_plain ''[x,1]'' = []
   \<and> ParseTimesJSON strtod_plain ''[x,1]'' \<noteq> r3d_parse_times strtod_plain ''[x,1]''"
  by (simp add: braw_parses_x_1 r3d_parses_x_1)

text \<open>
  Claim C9, amended: the list of r3d-tool's parser is always a prefix of the list of
  braw-tool's parser, and the two lists are equal on every input on which each
  \<^verbatim>\<open>strtod\<close> call of r3d-tool's loop converts something. This holds for every
  \<^verbatim>\<open>strtod\<close> that skips leading blanks and newlines and converts nothing from a string
  that is empty or starts with a comma or a closing bracket.
\<close>

theorem C9_parsers_agree_when_all_convert:
  assumes "strtod_ok strtod"
  shows "prefix (r3d_parse_times strtod json) (ParseTimesJSON strtod json)
       \<and> (r3d_all_convert strtod (after_bracket json)
            \<longrightarrow> r3d_parse_times strtod json = ParseTimesJSON strtod json)"
  unfolding r3d_parse_times_def ParseTimesJSON_def
  using parsers_agree_loop [OF assms, of "after_bracket json"] .

theorem C9_parsers_agree_when_all_convert_witness:
  "strtod_ok strtod_plain
   \<and> r3d_all_convert strtod_plain (after_bracket times_arg)
   \<and> r3d_parse_times strtod_plain times_arg = ParseTimesJSON strtod_plain times_arg
   \<and> r3d_parse_times strtod_plain times_arg = [3 / 2, 3]"
  using C9_parsers_agree_when_all_convert [of strtod_plain times_arg]
    strtod_plain_ok r3d_converts_times_arg braw_parses_times_arg
  by simp

text \<open>
  Claim C3: every \<^verbatim>\<open>extract-audio\<close> run that exits with code 0 leaves a well-formed WAV
  file whose \<^verbatim>\<open>dataBytes\<close> field is the number of payload bytes written after the
  44-byte header. braw-tool computes the field from the clip's metadata before it reads
  any sample and never corrects it: on a clip of 48000 stereo 16-bit samples whose first
  \<^verbatim>\<open>GetAudioSamples\<close> fails, the run prints its JSON line and returns 0, the file is the
  header alone, and the header announces 192000 bytes of data.
\<close>

theorem C3_braw_header_overstates_payload:
  "CmdExtractAudio pf_example braw_clip ''clip.braw'' ''out.wav'' =
     Some (''{'' @ quoted ''sampleRate'' @ '':48000,'' @ quoted ''channels'' @ '':2,''
             @ quoted ''bitDepth'' @ '':16,'' @ quoted ''samples'' @ '':48000,''
             @ quoted ''outputPath'' @ '':'' @ quoted ''out.wav'' @ ''}'' @ nl,
           0,
           Some (WavHeader_bytes (braw_header 48000 16 2 48000)))
   \<and> length (WavHeader_bytes (braw_header 48000 16 2 48000)) = 44
   \<and> dataBytes (braw_header 48000 16 2 48000) = 192000
   \<and> wav_dataBytes (WavHeader_bytes (braw_header 48000 16 2 48000)) = 192000"
proof (intro conjI)
  show "CmdExtractAudio pf_example braw_clip ''clip.braw'' ''out.wav'' =
     Some (''{'' @ quoted ''sampleRate'' @ '':48000,'' @ quoted ''channels'' @ '':2,''
             @ quoted ''bitDepth'' @ '':16,'' @ quoted ''samples'' @ '':48000,''
             @ quoted ''outputPath'' @ '':'' @ quoted ''out.wav'' @ ''}'' @ nl,
           0,
           Some (WavHeader_bytes (braw_header 48000 16 2 48000)))"
    using braw_audio_loop_fails_at_once
    by (simp add: CmdExtractAudio_def braw_clip_def pf_example_def dec_48000 dec_small)
  show "length (WavHeader_bytes (braw_header 48000 16 2 48000)) = 44"
    by (rule length_WavHeader_bytes)
  show "dataBytes (braw_header 48000 16 2 48000) = 192000"
    by (simp add: braw_header_example)
  show "wav_dataBytes (WavHeader_bytes (braw_header 48000 16 2 48000)) = 192000"
    by (simp add: braw_header_example WavHeader_bytes_def tag_def le16_def le32_def
          wav_dataBytes_def)
qed









end
